theory Spec2Isabelle
  imports Main "HOL-Library.AList"
begin

section \<open>JavaScript values, plain objects and thrown errors\<close>

text \<open>
  A property value is a primitive or a reference; \<open>===\<close> on two values is HOL equality
  (two references are identical when their addresses are). A plain object is the list of
  its own enumerable properties in insertion order.
\<close>

datatype val = Undefined | Null | Bool bool | Num int | Str string | Ref nat

type_synonym props = "(string \<times> val) list"

text \<open>
  \<open>throw\<close> takes any value: an Error object, or a value such as \<open>null\<close>. The test
  \<open>if (x)\<close> on a thrown value is its truthiness: an Error object is truthy, and so is
  every value but \<open>undefined\<close>, \<open>null\<close>, \<open>false\<close>, \<open>0\<close> and the empty string.
\<close>

datatype exn = Error string | Thrown val

fun truthy :: "val \<Rightarrow> bool" where
  "truthy Undefined = False"
| "truthy Null = False"
| "truthy (Bool b) = b"
| "truthy (Num n) = (n \<noteq> 0)"
| "truthy (Str s) = (s \<noteq> [])"
| "truthy (Ref r) = True"

fun truthy_exn :: "exn \<Rightarrow> bool" where
  "truthy_exn (Error m) = True"
| "truthy_exn (Thrown v) = truthy v"

text \<open>
  The store state is an object with an identity (its address) and a content. The
  comparison \<open>prevStoreState === storeState\<close> looks at the identity only.
\<close>

record sstate =
  state_ref :: nat
  state_fields :: props

definition strict_eq :: "sstate \<Rightarrow> sstate \<Rightarrow> bool" where
  "strict_eq a b = (state_ref a = state_ref b)"

text \<open>
  A mapping function has a declared parameter count (\<open>fn.length\<close>) and a body. The
  body receives the source (store state or dispatch capability) and the second argument:
  \<open>None\<close> when the caller passed one argument only. It throws, returns a plain object,
  or returns another function. Mapping functions are pure in the source and the
  own-properties.
\<close>

datatype 'src mapped = Plain props | Callable "'src mapfn"
  and 'src mapfn = MapFn (arity: nat) (invoke: "'src \<Rightarrow> props option \<Rightarrow> exn + 'src mapped")

text \<open>\<open>typeof x === 'function'\<close>\<close>

fun is_function :: "'src mapped \<Rightarrow> bool" where
  "is_function (Plain p) = False"
| "is_function (Callable f) = True"

text \<open>The own enumerable properties of a value; a function object has none.\<close>

fun own :: "'src mapped \<Rightarrow> props" where
  "own (Plain p) = p"
| "own (Callable f) = []"

fun own_opt :: "'src mapped option \<Rightarrow> props" where
  "own_opt None = []"
| "own_opt (Some m) = own m"

text \<open>
  Object spread \<open>{...a, ...b}\<close>: the properties of \<open>b\<close> are assigned over \<open>a\<close> in
  order; an existing key keeps its position and takes the new value.
\<close>

definition spread :: "props \<Rightarrow> props \<Rightarrow> props" where
  "spread a b = fold (\<lambda>(k, v). AList.update k v) b a"

text \<open>
  Modelled from the spec: \<open>utils/shallowEqual\<close> is imported by the source and is not
  part of it. Two mappings are shallow-equal if they have the same key set and each
  corresponding value is reference/primitive-equal, one level deep.
\<close>

definition shallowEqual :: "props \<Rightarrow> props \<Rightarrow> bool" where
  "shallowEqual a b =
     (list_all (\<lambda>k. k \<in> set (map fst b) \<and> map_of a k = map_of b k) (map fst a) \<and>
      list_all (\<lambda>k. k \<in> set (map fst a)) (map fst b))"

section \<open>The configuration closed over by \<open>connect\<close>\<close>

type_synonym mergefn = "sstate mapped option \<Rightarrow> val mapped option \<Rightarrow> props \<Rightarrow> exn + props"

definition defaultMapStateToProps :: "sstate mapfn" where
  "defaultMapStateToProps = MapFn 1 (\<lambda>state _. Inr (Plain []))"

definition defaultMapDispatchToProps :: "val mapfn" where
  "defaultMapDispatchToProps = MapFn 1 (\<lambda>dispatch _. Inr (Plain [(''dispatch'', dispatch)]))"

definition defaultMergeProps :: mergefn where
  "defaultMergeProps stateProps dispatchProps parentProps =
     Inr (spread (spread parentProps (own_opt stateProps)) (own_opt dispatchProps))"

text \<open>
  The third argument of \<open>connect\<close>: absent, a function, or an object of action creators.
\<close>

datatype dispatch_arg = NoMapDispatch | MapDispatchFn "val mapfn" | ActionCreators props

record options =
  opt_pure :: "bool option"
  opt_withRef :: "bool option"

record config =
  shouldSubscribe :: bool
  mapState :: "sstate mapfn"
  mapDispatch :: "val mapfn"
  finalMergeProps :: mergefn
  pure :: bool
  withRef :: bool
  checkMergedEquals :: bool

text \<open>
  \<open>connect\<close>, lines 37-58. \<open>utils/wrapActionCreators\<close> is not part of the source and is a
  parameter. \<open>defaultMergeProps\<close> is private to the module, so a merge function supplied
  by the caller is never identical to it: \<open>finalMergeProps !== defaultMergeProps\<close>
  holds exactly when \<open>mergeProps\<close> was supplied.
\<close>

definition connect ::
  "(props \<Rightarrow> val mapfn) \<Rightarrow> sstate mapfn option \<Rightarrow> dispatch_arg \<Rightarrow> mergefn option \<Rightarrow> options \<Rightarrow> config"
where
  "connect wrapActionCreators mapStateToProps mapDispatchToProps mergeProps opts =
     (let pure_v = (case opt_pure opts of None \<Rightarrow> True | Some b \<Rightarrow> b);
          withRef_v = (case opt_withRef opts of None \<Rightarrow> False | Some b \<Rightarrow> b)
      in \<lparr> shouldSubscribe = (mapStateToProps \<noteq> None),
           mapState = (case mapStateToProps of None \<Rightarrow> defaultMapStateToProps | Some f \<Rightarrow> f),
           mapDispatch = (case mapDispatchToProps of
                            MapDispatchFn f \<Rightarrow> f
                          | NoMapDispatch \<Rightarrow> defaultMapDispatchToProps
                          | ActionCreators a \<Rightarrow> wrapActionCreators a),
           finalMergeProps = (case mergeProps of None \<Rightarrow> defaultMergeProps | Some m \<Rightarrow> m),
           pure = pure_v,
           withRef = withRef_v,
           checkMergedEquals = (pure_v \<and> mergeProps \<noteq> None) \<rparr>)"

section \<open>The \<open>Connect\<close> instance\<close>

text \<open>
  The element built by the view host's \<open>createElement\<close>: a fresh object (its address)
  carrying a copy of the properties it was given.
\<close>

record element =
  elem_id :: nat
  elem_props :: props

record store =
  getState :: sstate
  dispatch :: val

text \<open>Every invocation of a caller-supplied function is recorded, in order.\<close>

datatype call =
    MapStateCall "sstate mapfn" sstate "props option"
  | MapDispatchCall "val mapfn" val "props option"
  | MergePropsCall "sstate mapped option" "val mapped option" props

text \<open>
  The fields of \<open>this\<close>. \<open>null\<close> is \<open>None\<close>. The two dependency flags and
  \<open>unsubscribe\<close> are \<open>undefined\<close> until first assigned and are only ever tested for
  truthiness, so they are booleans that start \<open>False\<close>. \<open>calls\<close> and \<open>next_elem\<close>
  (the next free address for an element) are not fields of the source: they record the
  invocations made and the elements allocated.
\<close>

record inst =
  store :: store
  storeState :: sstate
  props :: props
  dispatchProps :: "val mapped option"
  stateProps :: "sstate mapped option"
  mergedProps :: "props option"
  haveOwnPropsChanged :: bool
  hasStoreStateChanged :: bool
  haveStatePropsBeenPrecalculated :: bool
  statePropsPrecalculationError :: "exn option"
  renderedElement :: "element option"
  finalMapDispatchToProps :: "val mapfn option"
  finalMapStateToProps :: "sstate mapfn option"
  doStatePropsDependOnOwnProps :: bool
  doDispatchPropsDependOnOwnProps :: bool
  unsubscribe :: bool
  calls :: "call list"
  next_elem :: nat

definition clearCache :: "inst \<Rightarrow> inst" where
  "clearCache i = i\<lparr> dispatchProps := None, stateProps := None, mergedProps := None,
       haveOwnPropsChanged := True, hasStoreStateChanged := True,
       haveStatePropsBeenPrecalculated := False, statePropsPrecalculationError := None,
       renderedElement := None, finalMapDispatchToProps := None,
       finalMapStateToProps := None \<rparr>"

text \<open>The constructor, lines 92-109, for a store that was found.\<close>

definition construct :: "store \<Rightarrow> props \<Rightarrow> inst" where
  "construct st p = clearCache
     \<lparr> store = st, storeState = getState st, props = p,
       dispatchProps = None, stateProps = None, mergedProps = None,
       haveOwnPropsChanged = False, hasStoreStateChanged = False,
       haveStatePropsBeenPrecalculated = False, statePropsPrecalculationError = None,
       renderedElement = None, finalMapDispatchToProps = None, finalMapStateToProps = None,
       doStatePropsDependOnOwnProps = False, doDispatchPropsDependOnOwnProps = False,
       unsubscribe = False, calls = [], next_elem = 0 \<rparr>"

definition shouldComponentUpdate :: "config \<Rightarrow> inst \<Rightarrow> bool" where
  "shouldComponentUpdate cfg i =
     (\<not> pure cfg \<or> haveOwnPropsChanged i \<or> hasStoreStateChanged i)"

subsection \<open>Computing the state partial\<close>

text \<open>
  A method that can throw returns the error or its value, together with the instance as
  it is at that moment: assignments made before a throw stay. \<open>checkStateShape\<close> only
  warns, in development builds, and changes nothing; it is left out.

  \<open>computeStateProps\<close> and \<open>configureFinalMapState\<close> call each other in the source.
  The call back from \<open>configureFinalMapState\<close> is made right after
  \<open>finalMapStateToProps\<close> was set to a function, so it takes the second half of
  \<open>computeStateProps\<close> (lines 122-131), which is \<open>invokeFinalMapState\<close> here.
\<close>

definition invokeFinalMapState :: "sstate mapfn \<Rightarrow> inst \<Rightarrow> (exn + sstate mapped) \<times> inst" where
  "invokeFinalMapState f i =
     (let state = getState (store i);
          arg = (if doStatePropsDependOnOwnProps i then Some (props i) else None)
      in (invoke f state arg, i\<lparr>calls := calls i @ [MapStateCall f state arg]\<rparr>))"

definition configureFinalMapState :: "config \<Rightarrow> inst \<Rightarrow> (exn + sstate mapped) \<times> inst" where
  "configureFinalMapState cfg i =
     (let state = getState (store i);
          i1 = i\<lparr>calls := calls i @ [MapStateCall (mapState cfg) state (Some (props i))]\<rparr>
      in case invoke (mapState cfg) state (Some (props i)) of
           Inl e \<Rightarrow> (Inl e, i1)
         | Inr mappedState \<Rightarrow>
             (let final = (case mappedState of Callable g \<Rightarrow> g | Plain p \<Rightarrow> mapState cfg);
                  i2 = i1\<lparr>finalMapStateToProps := Some final,
                          doStatePropsDependOnOwnProps := (arity final \<noteq> 1)\<rparr>
              in if is_function mappedState then invokeFinalMapState final i2
                 else (Inr mappedState, i2)))"

definition computeStateProps :: "config \<Rightarrow> inst \<Rightarrow> (exn + sstate mapped) \<times> inst" where
  "computeStateProps cfg i =
     (case finalMapStateToProps i of
        None \<Rightarrow> configureFinalMapState cfg i
      | Some f \<Rightarrow> invokeFinalMapState f i)"

subsection \<open>Computing the dispatch partial\<close>

definition invokeFinalMapDispatch :: "val mapfn \<Rightarrow> inst \<Rightarrow> (exn + val mapped) \<times> inst" where
  "invokeFinalMapDispatch f i =
     (let d = dispatch (store i);
          arg = (if doDispatchPropsDependOnOwnProps i then Some (props i) else None)
      in (invoke f d arg, i\<lparr>calls := calls i @ [MapDispatchCall f d arg]\<rparr>))"

definition configureFinalMapDispatch :: "config \<Rightarrow> inst \<Rightarrow> (exn + val mapped) \<times> inst" where
  "configureFinalMapDispatch cfg i =
     (let d = dispatch (store i);
          i1 = i\<lparr>calls := calls i @ [MapDispatchCall (mapDispatch cfg) d (Some (props i))]\<rparr>
      in case invoke (mapDispatch cfg) d (Some (props i)) of
           Inl e \<Rightarrow> (Inl e, i1)
         | Inr mappedDispatch \<Rightarrow>
             (let final = (case mappedDispatch of Callable g \<Rightarrow> g | Plain p \<Rightarrow> mapDispatch cfg);
                  i2 = i1\<lparr>finalMapDispatchToProps := Some final,
                          doDispatchPropsDependOnOwnProps := (arity final \<noteq> 1)\<rparr>
              in if is_function mappedDispatch then invokeFinalMapDispatch final i2
                 else (Inr mappedDispatch, i2)))"

definition computeDispatchProps :: "config \<Rightarrow> inst \<Rightarrow> (exn + val mapped) \<times> inst" where
  "computeDispatchProps cfg i =
     (case finalMapDispatchToProps i of
        None \<Rightarrow> configureFinalMapDispatch cfg i
      | Some f \<Rightarrow> invokeFinalMapDispatch f i)"

subsection \<open>The three guarded updates\<close>

definition updateStatePropsIfNeeded :: "config \<Rightarrow> inst \<Rightarrow> (exn + bool) \<times> inst" where
  "updateStatePropsIfNeeded cfg i =
     (case computeStateProps cfg i of
        (Inl e, i1) \<Rightarrow> (Inl e, i1)
      | (Inr nextStateProps, i1) \<Rightarrow>
          (if (case stateProps i1 of None \<Rightarrow> False
               | Some old \<Rightarrow> shallowEqual (own nextStateProps) (own old))
           then (Inr False, i1)
           else (Inr True, i1\<lparr>stateProps := Some nextStateProps\<rparr>)))"

definition updateDispatchPropsIfNeeded :: "config \<Rightarrow> inst \<Rightarrow> (exn + bool) \<times> inst" where
  "updateDispatchPropsIfNeeded cfg i =
     (case computeDispatchProps cfg i of
        (Inl e, i1) \<Rightarrow> (Inl e, i1)
      | (Inr nextDispatchProps, i1) \<Rightarrow>
          (if (case dispatchProps i1 of None \<Rightarrow> False
               | Some old \<Rightarrow> shallowEqual (own nextDispatchProps) (own old))
           then (Inr False, i1)
           else (Inr True, i1\<lparr>dispatchProps := Some nextDispatchProps\<rparr>)))"

definition computeMergedProps ::
  "config \<Rightarrow> sstate mapped option \<Rightarrow> val mapped option \<Rightarrow> props \<Rightarrow> inst \<Rightarrow> (exn + props) \<times> inst"
where
  "computeMergedProps cfg sp dp parentProps i =
     (finalMergeProps cfg sp dp parentProps,
      i\<lparr>calls := calls i @ [MergePropsCall sp dp parentProps]\<rparr>)"

definition updateMergedPropsIfNeeded :: "config \<Rightarrow> inst \<Rightarrow> (exn + bool) \<times> inst" where
  "updateMergedPropsIfNeeded cfg i =
     (case computeMergedProps cfg (stateProps i) (dispatchProps i) (props i) i of
        (Inl e, i1) \<Rightarrow> (Inl e, i1)
      | (Inr nextMergedProps, i1) \<Rightarrow>
          (if (case mergedProps i1 of None \<Rightarrow> False
               | Some old \<Rightarrow> checkMergedEquals cfg \<and> shallowEqual nextMergedProps old)
           then (Inr False, i1)
           else (Inr True, i1\<lparr>mergedProps := Some nextMergedProps\<rparr>)))"

subsection \<open>The render pass\<close>

text \<open>
  \<open>createElement(WrappedComponent, config)\<close> of the view host: a fresh element with the
  properties of \<open>config\<close> (none when \<open>config\<close> is \<open>null\<close>).
\<close>

definition createElement :: "props \<Rightarrow> inst \<Rightarrow> element \<times> inst" where
  "createElement config i =
     (\<lparr>elem_id = next_elem i, elem_props = config\<rparr>, i\<lparr>next_elem := Suc (next_elem i)\<rparr>)"

definition spread_opt :: "props option \<Rightarrow> props" where
  "spread_opt m = (case m of None \<Rightarrow> [] | Some p \<Rightarrow> p)"

text \<open>Lines 398-419: reuse the previous element or build a new one.\<close>

definition finishRender ::
  "config \<Rightarrow> bool \<Rightarrow> element option \<Rightarrow> inst \<Rightarrow> (exn + element) \<times> inst"
where
  "finishRender cfg haveMergedPropsChanged prevElement i =
     (case (if haveMergedPropsChanged then None else prevElement) of
        Some e \<Rightarrow> (Inr e, i)
      | None \<Rightarrow>
          (let config = (if withRef cfg
                         then AList.update ''ref'' (Str ''wrappedInstance'') (spread_opt (mergedProps i))
                         else spread_opt (mergedProps i));
               (e, i1) = createElement config i
           in (Inr e, i1\<lparr>renderedElement := Some e\<rparr>)))"

text \<open>
  Sequencing inside a method: a throw in the first part leaves the method at once, with
  the instance as it is.
\<close>

definition thenDo ::
  "(exn + 'a) \<times> inst \<Rightarrow> ('a \<Rightarrow> inst \<Rightarrow> (exn + 'b) \<times> inst) \<Rightarrow> (exn + 'b) \<times> inst"
where
  "thenDo m f = (case m of (Inl e, i) \<Rightarrow> (Inl e, i) | (Inr v, i) \<Rightarrow> f v i)"

text \<open>
  \<open>render\<close>, lines 338-420. The pass first destructures the four flags and the previous
  element from \<open>this\<close> and resets the flags (\<open>resetFlags\<close>); every later decision
  reads the destructured values, which are those of the instance \<open>i\<close> the pass started
  with.
\<close>

definition resetFlags :: "inst \<Rightarrow> inst" where
  "resetFlags i = i\<lparr>haveOwnPropsChanged := False, hasStoreStateChanged := False,
                    haveStatePropsBeenPrecalculated := False,
                    statePropsPrecalculationError := None\<rparr>"

text \<open>
  Line 353, \<open>if (statePropsPrecalculationError)\<close>: the recorded value is thrown when it
  is truthy. \<open>null\<close> (nothing recorded) and a recorded falsy value are not.
\<close>

definition pendingError :: "inst \<Rightarrow> exn option" where
  "pendingError i =
     (case statePropsPrecalculationError i of
        None \<Rightarrow> None
      | Some e \<Rightarrow> if truthy_exn e then Some e else None)"

text \<open>Lines 359-370.\<close>

definition shouldUpdateStateProps :: "config \<Rightarrow> inst \<Rightarrow> bool" where
  "shouldUpdateStateProps cfg i =
     (if pure cfg \<and> renderedElement i \<noteq> None
      then hasStoreStateChanged i \<or> (haveOwnPropsChanged i \<and> doStatePropsDependOnOwnProps i)
      else True)"

definition shouldUpdateDispatchProps :: "config \<Rightarrow> inst \<Rightarrow> bool" where
  "shouldUpdateDispatchProps cfg i =
     (if pure cfg \<and> renderedElement i \<noteq> None
      then haveOwnPropsChanged i \<and> doDispatchPropsDependOnOwnProps i
      else True)"

definition render :: "config \<Rightarrow> inst \<Rightarrow> (exn + element) \<times> inst" where
  "render cfg i =
     (case pendingError i of
        Some e \<Rightarrow> (Inl e, resetFlags i)
      | None \<Rightarrow>
          thenDo (if haveStatePropsBeenPrecalculated i then (Inr True, resetFlags i)
                  else if shouldUpdateStateProps cfg i
                       then updateStatePropsIfNeeded cfg (resetFlags i)
                       else (Inr False, resetFlags i))
            (\<lambda>haveStatePropsChanged i1.
          thenDo (if shouldUpdateDispatchProps cfg i
                  then updateDispatchPropsIfNeeded cfg i1
                  else (Inr False, i1))
            (\<lambda>haveDispatchPropsChanged i2.
          thenDo (if haveStatePropsChanged \<or> haveDispatchPropsChanged \<or> haveOwnPropsChanged i
                  then updateMergedPropsIfNeeded cfg i2
                  else (Inr False, i2))
            (\<lambda>haveMergedPropsChanged i3.
               finishRender cfg haveMergedPropsChanged (renderedElement i) i3))))"

subsection \<open>The host's update of a component\<close>

text \<open>
  The view host's update of a component: \<open>shouldComponentUpdate\<close> decides whether a
  render pass runs. \<open>None\<close> means that none ran. \<open>componentWillUpdate\<close>, present in
  development builds, returns at once unless the component class was replaced under the
  instance by hot reloading, which is not modelled.
\<close>

type_synonym pass = "(exn + element) option"

definition updateComponent :: "config \<Rightarrow> inst \<Rightarrow> pass \<times> inst" where
  "updateComponent cfg i =
     (if shouldComponentUpdate cfg i
      then (case render cfg i of (r, i1) \<Rightarrow> (Some r, i1))
      else (None, i))"

subsection \<open>Subscription and the notification handler\<close>

text \<open>
  \<open>tryCatch\<close> turns a throw into a returned value: the shared \<open>errorObject\<close> holding
  what was thrown. Its caller tells the two apart with \<open>=== errorObject\<close>.
\<close>

datatype 'a caught = ErrorObject exn | Returned 'a

definition tryCatch :: "(inst \<Rightarrow> (exn + 'a) \<times> inst) \<Rightarrow> inst \<Rightarrow> 'a caught \<times> inst" where
  "tryCatch fn ctx =
     (case fn ctx of (Inr v, c) \<Rightarrow> (Returned v, c) | (Inl e, c) \<Rightarrow> (ErrorObject e, c))"

text \<open>
  \<open>this.setState({ storeState })\<close> is the view host's. What it does depends on where
  the call comes from. Inside a batch of the host (an event handler of the host, a
  lifecycle method) the host records the new component state and runs the update after
  the caller has returned. Outside a batch (a store dispatch from a timer or a promise)
  the host runs the update before \<open>setState\<close> returns, and what the render pass throws
  leaves \<open>setState\<close>. The result says whether a host update was asked for.
\<close>

datatype host = InsideBatch | OutsideBatch

definition setState :: "host \<Rightarrow> config \<Rightarrow> sstate \<Rightarrow> inst \<Rightarrow> (exn + bool) \<times> inst" where
  "setState h cfg s i =
     (case h of
        InsideBatch \<Rightarrow> (Inr True, i\<lparr>storeState := s\<rparr>)
      | OutsideBatch \<Rightarrow>
          (case updateComponent cfg (i\<lparr>storeState := s\<rparr>) of
             (Some (Inl e), i1) \<Rightarrow> (Inl e, i1)
           | (Some (Inr el), i1) \<Rightarrow> (Inr True, i1)
           | (None, i1) \<Rightarrow> (Inr True, i1)))"

text \<open>
  \<open>handleChange\<close>, lines 288-324. The call of \<open>setState\<close> is its last statement and is
  not inside \<open>tryCatch\<close>.
\<close>

definition handleChange :: "host \<Rightarrow> config \<Rightarrow> inst \<Rightarrow> (exn + bool) \<times> inst" where
  "handleChange h cfg i =
     (if \<not> unsubscribe i then (Inr False, i)
      else
        let s = getState (store i);
            prevStoreState = storeState i
        in if pure cfg \<and> strict_eq prevStoreState s then (Inr False, i)
           else if pure cfg \<and> \<not> doStatePropsDependOnOwnProps i then
             (case tryCatch (updateStatePropsIfNeeded cfg) i of
                (Returned False, i1) \<Rightarrow> (Inr False, i1)
              | (Returned True, i1) \<Rightarrow>
                  setState h cfg s (i1\<lparr>haveStatePropsBeenPrecalculated := True,
                                       hasStoreStateChanged := True\<rparr>)
              | (ErrorObject e, i1) \<Rightarrow>
                  setState h cfg s (i1\<lparr>statePropsPrecalculationError := Some e,
                                       haveStatePropsBeenPrecalculated := True,
                                       hasStoreStateChanged := True\<rparr>))
           else setState h cfg s (i\<lparr>hasStoreStateChanged := True\<rparr>))"

definition isSubscribed :: "inst \<Rightarrow> bool" where
  "isSubscribed i = unsubscribe i"

text \<open>
  \<open>trySubscribe\<close> registers the listener and runs the handler once; the handler's
  request for a host update is returned.
\<close>

definition trySubscribe :: "host \<Rightarrow> config \<Rightarrow> inst \<Rightarrow> (exn + bool) \<times> inst" where
  "trySubscribe h cfg i =
     (if shouldSubscribe cfg \<and> \<not> unsubscribe i
      then handleChange h cfg (i\<lparr>unsubscribe := True\<rparr>)
      else (Inr False, i))"

definition tryUnsubscribe :: "inst \<Rightarrow> inst" where
  "tryUnsubscribe i = (if unsubscribe i then i\<lparr>unsubscribe := False\<rparr> else i)"

definition componentDidMount :: "host \<Rightarrow> config \<Rightarrow> inst \<Rightarrow> (exn + bool) \<times> inst" where
  "componentDidMount h cfg i = trySubscribe h cfg i"

definition componentWillReceiveProps :: "config \<Rightarrow> props \<Rightarrow> inst \<Rightarrow> inst" where
  "componentWillReceiveProps cfg nextProps i =
     (if \<not> pure cfg \<or> \<not> shallowEqual nextProps (props i)
      then i\<lparr>haveOwnPropsChanged := True\<rparr> else i)"

definition componentWillUnmount :: "inst \<Rightarrow> inst" where
  "componentWillUnmount i = clearCache (tryUnsubscribe i)"

section \<open>The view host and the store driving one instance\<close>

text \<open>
  Mounting: constructor, first render pass, then \<open>componentDidMount\<close> and the update it
  may ask for. The host mounts inside a batch.
\<close>

definition mountComponent :: "config \<Rightarrow> store \<Rightarrow> props \<Rightarrow> (exn + element) \<times> inst" where
  "mountComponent cfg st p =
     (case render cfg (construct st p) of
        (Inl e, i1) \<Rightarrow> (Inl e, i1)
      | (Inr el, i1) \<Rightarrow>
          (case componentDidMount InsideBatch cfg i1 of
             (Inl e, i2) \<Rightarrow> (Inl e, i2)
           | (Inr False, i2) \<Rightarrow> (Inr el, i2)
           | (Inr True, i2) \<Rightarrow>
               (case updateComponent cfg i2 of
                  (Some r, i3) \<Rightarrow> (r, i3)
                | (None, i3) \<Rightarrow> (Inr el, i3))))"

text \<open>
  The two updates an instance receives. New own-properties: the host calls
  \<open>componentWillReceiveProps\<close>, installs them as \<open>this.props\<close> and updates the component.
  A store notification: the store has moved to a state and calls the listener; the host
  update that the listener asks for is run to completion before the next update. It is
  written here for a listener called inside a batch, with the update after it; a listener
  called outside a batch has the same update inside \<open>setState\<close> and ends with the same
  instance (\<open>handleChange_OutsideBatch\<close>).
\<close>

datatype update = OwnPropsUpdate props | StoreNotification sstate

fun processUpdate :: "config \<Rightarrow> update \<Rightarrow> inst \<Rightarrow> pass \<times> inst" where
  "processUpdate cfg (OwnPropsUpdate nextProps) i =
     updateComponent cfg ((componentWillReceiveProps cfg nextProps i)\<lparr>props := nextProps\<rparr>)"
| "processUpdate cfg (StoreNotification s) i =
     (case handleChange InsideBatch cfg (i\<lparr>store := (store i)\<lparr>getState := s\<rparr>\<rparr>) of
        (Inl e, i1) \<Rightarrow> (Some (Inl e), i1)
      | (Inr False, i1) \<Rightarrow> (None, i1)
      | (Inr True, i1) \<Rightarrow> updateComponent cfg i1)"

fun processUpdates :: "config \<Rightarrow> update list \<Rightarrow> inst \<Rightarrow> inst" where
  "processUpdates cfg [] i = i"
| "processUpdates cfg (u # us) i = processUpdates cfg us (snd (processUpdate cfg u i))"

text \<open>The number of elements built by \<open>createElement\<close> while a sequence is processed.\<close>

definition elementsProduced :: "config \<Rightarrow> update list \<Rightarrow> inst \<Rightarrow> nat" where
  "elementsProduced cfg us i = next_elem (processUpdates cfg us i) - next_elem i"

text \<open>Two MergedProps, either of which may be missing, are shallow-unequal.\<close>

fun shallowUnequal :: "props option \<Rightarrow> props option \<Rightarrow> bool" where
  "shallowUnequal (Some a) (Some b) = (\<not> shallowEqual a b)"
| "shallowUnequal None None = False"
| "shallowUnequal (Some a) None = True"
| "shallowUnequal None (Some b) = True"

section \<open>Vocabulary for the properties\<close>

text \<open>Which caller-supplied function an entry of \<open>calls\<close> invoked, and how often.\<close>

fun is_state_call :: "call \<Rightarrow> bool" where
  "is_state_call (MapStateCall f s a) = True"
| "is_state_call _ = False"

fun is_dispatch_call :: "call \<Rightarrow> bool" where
  "is_dispatch_call (MapDispatchCall f d a) = True"
| "is_dispatch_call _ = False"

fun is_merge_call :: "call \<Rightarrow> bool" where
  "is_merge_call (MergePropsCall sp dp p) = True"
| "is_merge_call _ = False"

definition stateCalls :: "inst \<Rightarrow> nat" where
  "stateCalls i = length (filter is_state_call (calls i))"

definition dispatchCalls :: "inst \<Rightarrow> nat" where
  "dispatchCalls i = length (filter is_dispatch_call (calls i))"

definition mergeCalls :: "inst \<Rightarrow> nat" where
  "mergeCalls i = length (filter is_merge_call (calls i))"

text \<open>
  One of StateProps, DispatchProps or OwnProps changed in the render pass that took the
  instance from \<open>i\<close> to \<open>i'\<close>: the pass replaced a cached partial, or the notification
  handler had replaced StateProps just before (\<open>haveStatePropsBeenPrecalculated\<close>), or
  the own-properties were flagged as changed.
\<close>

definition changedInPass :: "inst \<Rightarrow> inst \<Rightarrow> bool" where
  "changedInPass i i' =
     (haveStatePropsBeenPrecalculated i \<or> stateProps i' \<noteq> stateProps i \<or>
      dispatchProps i' \<noteq> dispatchProps i \<or> haveOwnPropsChanged i)"

text \<open>The element that \<open>finishRender\<close> builds when it builds one.\<close>

definition newElement :: "config \<Rightarrow> inst \<Rightarrow> element" where
  "newElement cfg i =
     \<lparr>elem_id = next_elem i,
      elem_props = (if withRef cfg
                    then AList.update ''ref'' (Str ''wrappedInstance'') (spread_opt (mergedProps i))
                    else spread_opt (mergedProps i))\<rparr>"

text \<open>
  No eager recomputation is pending: the state of every instance between two updates
  when \<open>pure\<close> is off.
\<close>

definition noPrecalculation :: "inst \<Rightarrow> bool" where
  "noPrecalculation i =
     (\<not> haveStatePropsBeenPrecalculated i \<and> statePropsPrecalculationError i = None)"

text \<open>
  The second argument a mapping of a given declared parameter count is invoked with.
\<close>

definition secondArg :: "'src mapfn \<Rightarrow> props \<Rightarrow> props option" where
  "secondArg f p = (if arity f = 1 then None else Some p)"

text \<open>
  A slot's dependency flag agrees with the declared parameter count of its resolved
  mapping (\<open>slotsFixed\<close>), and a resolved mapping stays the one it is (\<open>sameSlots\<close>).
\<close>

fun slotFixed :: "'src mapfn option \<Rightarrow> bool \<Rightarrow> bool" where
  "slotFixed None d = True"
| "slotFixed (Some f) d = (d = (arity f \<noteq> 1))"

definition slotsFixed :: "inst \<Rightarrow> bool" where
  "slotsFixed i =
     (slotFixed (finalMapStateToProps i) (doStatePropsDependOnOwnProps i) \<and>
      slotFixed (finalMapDispatchToProps i) (doDispatchPropsDependOnOwnProps i))"

fun sameSlot :: "'src mapfn option \<Rightarrow> 'src mapfn option \<Rightarrow> bool" where
  "sameSlot None b = True"
| "sameSlot (Some f) b = (b = Some f)"

definition sameSlots :: "inst \<Rightarrow> inst \<Rightarrow> bool" where
  "sameSlots i i' =
     (sameSlot (finalMapStateToProps i) (finalMapStateToProps i') \<and>
      sameSlot (finalMapDispatchToProps i) (finalMapDispatchToProps i'))"

text \<open>What every method keeps of the two slots.\<close>

definition kept :: "inst \<Rightarrow> inst \<Rightarrow> bool" where
  "kept i i' = (sameSlots i i' \<and> (slotsFixed i \<longrightarrow> slotsFixed i'))"

section \<open>MergedProps as the current inputs give it\<close>


















section \<open>Scenarios\<close>

text \<open>
  The store of the scenarios holds a counter. \<open>state0\<close> is its first state, \<open>state0'\<close> a
  new object with the same content, \<open>state1\<close> a new object with a new value.
\<close>

definition state0 :: sstate where
  "state0 = \<lparr>state_ref = 1, state_fields = [(''count'', Num 0)]\<rparr>"

definition state0' :: sstate where
  "state0' = \<lparr>state_ref = 2, state_fields = [(''count'', Num 0)]\<rparr>"

definition state1 :: sstate where
  "state1 = \<lparr>state_ref = 3, state_fields = [(''count'', Num 1)]\<rparr>"

definition counterStore :: store where
  "counterStore = \<lparr>getState = state0, dispatch = Ref 0\<rparr>"

definition countOf :: "sstate \<Rightarrow> val" where
  "countOf s = (case map_of (state_fields s) ''count'' of Some v \<Rightarrow> v | None \<Rightarrow> Undefined)"

text \<open>\<open>(s) => ({count: s.count})\<close>, one declared parameter.\<close>

definition countMapping :: "sstate mapfn" where
  "countMapping = MapFn 1 (\<lambda>s _. Inr (Plain [(''count'', countOf s)]))"

text \<open>The same mapping, throwing once the counter is 1.\<close>

definition failingMapping :: "sstate mapfn" where
  "failingMapping =
     MapFn 1 (\<lambda>s _. if countOf s = Num 1 then Inl (Error ''boom'')
                     else Inr (Plain [(''count'', countOf s)]))"

text \<open>The same mapping again, with \<open>throw null\<close> once the counter is 1.\<close>

definition nullThrowingMapping :: "sstate mapfn" where
  "nullThrowingMapping =
     MapFn 1 (\<lambda>s _. if countOf s = Num 1 then Inl (Thrown Null)
                     else Inr (Plain [(''count'', countOf s)]))"

text \<open>A factory \<open>(s, p) => countMapping\<close>.\<close>

definition factoryMapping :: "sstate mapfn" where
  "factoryMapping = MapFn 2 (\<lambda>s _. Inr (Callable countMapping))"

text \<open>A factory for the dispatch slot, returning the default dispatch mapping.\<close>

definition dispatchFactory :: "val mapfn" where
  "dispatchFactory = MapFn 2 (\<lambda>d _. Inr (Callable defaultMapDispatchToProps))"

text \<open>\<open>(s, p) => ({count: s.count, pid: p.id})\<close>, two declared parameters.\<close>

definition idOf :: "props \<Rightarrow> val" where
  "idOf p = (case map_of p ''id'' of Some v \<Rightarrow> v | None \<Rightarrow> Undefined)"

definition ownMapping :: "sstate mapfn" where
  "ownMapping =
     MapFn 2 (\<lambda>s p. Inr (Plain [(''count'', countOf s),
                                   (''pid'', (case p of None \<Rightarrow> Undefined | Some q \<Rightarrow> idOf q))]))"

text \<open>A merge function that passes the state partial on and nothing else.\<close>

definition stateOnlyMerge :: mergefn where
  "stateOnlyMerge sp dp p = Inr (own_opt sp)"

text \<open>No scenario passes an object of action creators; \<open>wrapActionCreators\<close> is never used.\<close>

definition noActionCreators :: "props \<Rightarrow> val mapfn" where
  "noActionCreators a = defaultMapDispatchToProps"

definition defaultOptions :: options where
  "defaultOptions = \<lparr>opt_pure = None, opt_withRef = None\<rparr>"

definition impureOptions :: options where
  "impureOptions = \<lparr>opt_pure = Some False, opt_withRef = None\<rparr>"

definition pureConfig :: config where
  "pureConfig = connect noActionCreators (Some countMapping) NoMapDispatch None defaultOptions"

definition impureConfig :: config where
  "impureConfig = connect noActionCreators (Some countMapping) NoMapDispatch None impureOptions"

definition mergingConfig :: config where
  "mergingConfig =
     connect noActionCreators (Some countMapping) NoMapDispatch (Some stateOnlyMerge) defaultOptions"

definition impureMergingConfig :: config where
  "impureMergingConfig =
     connect noActionCreators (Some countMapping) NoMapDispatch (Some stateOnlyMerge) impureOptions"

definition failingConfig :: config where
  "failingConfig = connect noActionCreators (Some failingMapping) NoMapDispatch None defaultOptions"

definition ownMergingConfig :: config where
  "ownMergingConfig =
     connect noActionCreators (Some ownMapping) NoMapDispatch (Some stateOnlyMerge) defaultOptions"

definition nullThrowingConfig :: config where
  "nullThrowingConfig =
     connect noActionCreators (Some nullThrowingMapping) NoMapDispatch None defaultOptions"

definition factoryConfig :: config where
  "factoryConfig =
     connect noActionCreators (Some factoryMapping) (MapDispatchFn dispatchFactory) None defaultOptions"

text \<open>The mounted instances of the scenarios.\<close>

definition mounted :: "config \<Rightarrow> props \<Rightarrow> inst" where
  "mounted cfg p = snd (mountComponent cfg counterStore p)"

section \<open>Lemmas about the methods\<close>

lemma shallowEqual_refl: "shallowEqual a a"
  by (auto simp: shallowEqual_def list_all_iff)

lemma state_calls_only:
  "list_all is_state_call new \<Longrightarrow> filter is_merge_call new = [] \<and> filter is_dispatch_call new = [] \<and> filter is_state_call new = new"
  by (induction new) (auto elim: is_state_call.elims)

lemma dispatch_calls_only:
  "list_all is_dispatch_call new \<Longrightarrow> filter is_merge_call new = [] \<and> filter is_state_call new = [] \<and> filter is_dispatch_call new = new"
  by (induction new) (auto elim: is_dispatch_call.elims)

lemma computeStateProps_frame0:
  "computeStateProps cfg i = (r, i') \<Longrightarrow>
   i' = i\<lparr>finalMapStateToProps := finalMapStateToProps i',
         doStatePropsDependOnOwnProps := doStatePropsDependOnOwnProps i', calls := calls i'\<rparr>"
  by (auto simp: computeStateProps_def configureFinalMapState_def invokeFinalMapState_def Let_def
      split: option.splits sum.splits if_splits)

lemma computeStateProps_calls:
  "computeStateProps cfg i = (r, i') \<Longrightarrow>
   \<exists>new. calls i' = calls i @ new \<and> list_all is_state_call new \<and> new \<noteq> []"
  by (auto simp: computeStateProps_def configureFinalMapState_def invokeFinalMapState_def Let_def
      split: option.splits sum.splits if_splits)

lemma computeStateProps_frame:
  assumes "computeStateProps cfg i = (r, i')"
  obtains F D new where "i' = i\<lparr>finalMapStateToProps := F,
         doStatePropsDependOnOwnProps := D, calls := calls i @ new\<rparr>"
     "list_all is_state_call new" "new \<noteq> []"
proof -
  from computeStateProps_calls [OF assms] obtain new
    where n: "calls i' = calls i @ new" "list_all is_state_call new" "new \<noteq> []" by blast
  from computeStateProps_frame0 [OF assms] n(1)
  have "i' = i\<lparr>finalMapStateToProps := finalMapStateToProps i',
         doStatePropsDependOnOwnProps := doStatePropsDependOnOwnProps i', calls := calls i @ new\<rparr>" by simp
  with n(2,3) that show thesis by blast
qed

lemma updateStatePropsIfNeeded_frame:
  assumes "updateStatePropsIfNeeded cfg i = (r, i')"
  obtains S F D new where "i' = i\<lparr>stateProps := S, finalMapStateToProps := F,
         doStatePropsDependOnOwnProps := D, calls := calls i @ new\<rparr>"
     "list_all is_state_call new" "new \<noteq> []"
     "r = Inr True \<Longrightarrow> S \<noteq> stateProps i" "r \<noteq> Inr True \<Longrightarrow> S = stateProps i"
proof -
  obtain r0 i0 where c: "computeStateProps cfg i = (r0, i0)" by (cases "computeStateProps cfg i")
  from computeStateProps_frame [OF c] obtain F D new where
    f: "i0 = i\<lparr>finalMapStateToProps := F, doStatePropsDependOnOwnProps := D, calls := calls i @ new\<rparr>"
      "list_all is_state_call new" "new \<noteq> []" by blast
  have "i' = i\<lparr>stateProps := stateProps i', finalMapStateToProps := F,
         doStatePropsDependOnOwnProps := D, calls := calls i @ new\<rparr>"
    using assms c f(1) by (auto simp: updateStatePropsIfNeeded_def split: sum.splits if_splits option.splits)
  moreover have "r = Inr True \<Longrightarrow> stateProps i' \<noteq> stateProps i"
    using assms c f(1) by (auto simp: updateStatePropsIfNeeded_def shallowEqual_refl split: sum.splits if_splits option.splits)
  moreover have "r \<noteq> Inr True \<Longrightarrow> stateProps i' = stateProps i"
    using assms c f(1) by (auto simp: updateStatePropsIfNeeded_def split: sum.splits if_splits option.splits)
  ultimately show thesis using that f(2,3) by blast
qed

lemma computeDispatchProps_frame0:
  "computeDispatchProps cfg i = (r, i') \<Longrightarrow>
   i' = i\<lparr>finalMapDispatchToProps := finalMapDispatchToProps i',
         doDispatchPropsDependOnOwnProps := doDispatchPropsDependOnOwnProps i', calls := calls i'\<rparr>"
  by (auto simp: computeDispatchProps_def configureFinalMapDispatch_def invokeFinalMapDispatch_def Let_def
      split: option.splits sum.splits if_splits)

lemma computeDispatchProps_calls:
  "computeDispatchProps cfg i = (r, i') \<Longrightarrow>
   \<exists>new. calls i' = calls i @ new \<and> list_all is_dispatch_call new \<and> new \<noteq> []"
  by (auto simp: computeDispatchProps_def configureFinalMapDispatch_def invokeFinalMapDispatch_def Let_def
      split: option.splits sum.splits if_splits)

lemma computeDispatchProps_frame:
  assumes "computeDispatchProps cfg i = (r, i')"
  obtains F D new where "i' = i\<lparr>finalMapDispatchToProps := F,
         doDispatchPropsDependOnOwnProps := D, calls := calls i @ new\<rparr>"
     "list_all is_dispatch_call new" "new \<noteq> []"
proof -
  from computeDispatchProps_calls [OF assms] obtain new
    where n: "calls i' = calls i @ new" "list_all is_dispatch_call new" "new \<noteq> []" by blast
  from computeDispatchProps_frame0 [OF assms] n(1)
  have "i' = i\<lparr>finalMapDispatchToProps := finalMapDispatchToProps i',
         doDispatchPropsDependOnOwnProps := doDispatchPropsDependOnOwnProps i', calls := calls i @ new\<rparr>" by simp
  with n(2,3) that show thesis by blast
qed

lemma updateDispatchPropsIfNeeded_frame:
  assumes "updateDispatchPropsIfNeeded cfg i = (r, i')"
  obtains S F D new where "i' = i\<lparr>dispatchProps := S, finalMapDispatchToProps := F,
         doDispatchPropsDependOnOwnProps := D, calls := calls i @ new\<rparr>"
     "list_all is_dispatch_call new" "new \<noteq> []"
     "r = Inr True \<Longrightarrow> S \<noteq> dispatchProps i" "r \<noteq> Inr True \<Longrightarrow> S = dispatchProps i"
proof -
  obtain r0 i0 where c: "computeDispatchProps cfg i = (r0, i0)" by (cases "computeDispatchProps cfg i")
  from computeDispatchProps_frame [OF c] obtain F D new where
    f: "i0 = i\<lparr>finalMapDispatchToProps := F, doDispatchPropsDependOnOwnProps := D, calls := calls i @ new\<rparr>"
      "list_all is_dispatch_call new" "new \<noteq> []" by blast
  have "i' = i\<lparr>dispatchProps := dispatchProps i', finalMapDispatchToProps := F,
         doDispatchPropsDependOnOwnProps := D, calls := calls i @ new\<rparr>"
    using assms c f(1) by (auto simp: updateDispatchPropsIfNeeded_def split: sum.splits if_splits option.splits)
  moreover have "r = Inr True \<Longrightarrow> dispatchProps i' \<noteq> dispatchProps i"
    using assms c f(1) by (auto simp: updateDispatchPropsIfNeeded_def shallowEqual_refl split: sum.splits if_splits option.splits)
  moreover have "r \<noteq> Inr True \<Longrightarrow> dispatchProps i' = dispatchProps i"
    using assms c f(1) by (auto simp: updateDispatchPropsIfNeeded_def split: sum.splits if_splits option.splits)
  ultimately show thesis using that f(2,3) by blast
qed

lemma updateMergedPropsIfNeeded_frame:
  assumes "updateMergedPropsIfNeeded cfg i = (r, i')"
  obtains (merged) M where "i' = i\<lparr>mergedProps := M,
       calls := calls i @ [MergePropsCall (stateProps i) (dispatchProps i) (props i)]\<rparr>"
     "r = Inr True \<Longrightarrow> \<exists>m. M = Some m \<and> finalMergeProps cfg (stateProps i) (dispatchProps i) (props i) = Inr m
          \<and> \<not> (checkMergedEquals cfg \<and> (\<exists>old. mergedProps i = Some old \<and> shallowEqual m old))"
     "r \<noteq> Inr True \<Longrightarrow> M = mergedProps i"
     "r = Inr False \<Longrightarrow> checkMergedEquals cfg"
proof -
  have "i' = i\<lparr>mergedProps := mergedProps i',
       calls := calls i @ [MergePropsCall (stateProps i) (dispatchProps i) (props i)]\<rparr>"
    using assms by (auto simp: updateMergedPropsIfNeeded_def computeMergedProps_def split: sum.splits if_splits option.splits)
  moreover have "r = Inr True \<Longrightarrow> \<exists>m. mergedProps i' = Some m \<and> finalMergeProps cfg (stateProps i) (dispatchProps i) (props i) = Inr m
          \<and> \<not> (checkMergedEquals cfg \<and> (\<exists>old. mergedProps i = Some old \<and> shallowEqual m old))"
    using assms by (auto simp: updateMergedPropsIfNeeded_def computeMergedProps_def split: sum.splits if_splits option.splits)
  moreover have "r \<noteq> Inr True \<Longrightarrow> mergedProps i' = mergedProps i"
    using assms by (auto simp: updateMergedPropsIfNeeded_def computeMergedProps_def split: sum.splits if_splits option.splits)
  moreover have "r = Inr False \<Longrightarrow> checkMergedEquals cfg"
    using assms by (auto simp: updateMergedPropsIfNeeded_def computeMergedProps_def split: sum.splits if_splits option.splits)
  ultimately show thesis using that by blast
qed

lemma finishRender_reuse:
  "finishRender cfg False (Some e) i = (Inr e, i)"
  by (simp add: finishRender_def)

lemma finishRender_fresh:
  "changed \<or> prev = None \<Longrightarrow> finishRender cfg changed prev i =
     (Inr (newElement cfg i),
      i\<lparr>renderedElement := Some (newElement cfg i), next_elem := Suc (next_elem i)\<rparr>)"
  by (auto simp add: finishRender_def createElement_def Let_def newElement_def)

lemma finishRender_cases:
  assumes "finishRender cfg changed prev i = (r, i')"
  obtains (reuse) e where "\<not> changed" "prev = Some e" "r = Inr e" "i' = i"
  | (fresh) "changed \<or> prev = None" "r = Inr (newElement cfg i)"
      "i' = i\<lparr>renderedElement := Some (newElement cfg i), next_elem := Suc (next_elem i)\<rparr>"
proof (cases "changed \<or> prev = None")
  case True
  from assms finishRender_fresh [OF True, of cfg i] have "r = Inr (newElement cfg i)"
      "i' = i\<lparr>renderedElement := Some (newElement cfg i), next_elem := Suc (next_elem i)\<rparr>"
    by simp_all
  with True fresh show thesis by blast
next
  case False
  then obtain e where e: "\<not> changed" "prev = Some e" by auto
  with assms finishRender_reuse [of cfg e i] have "r = Inr e" "i' = i" by simp_all
  with e reuse show thesis by blast
qed

lemma thenDo_cases:
  assumes "thenDo m f = (r, i')"
  obtains (throws) e where "m = (Inl e, i')" "r = Inl e"
  | (returns) v i1 where "m = (Inr v, i1)" "f v i1 = (r, i')"
  using assms by (auto simp: thenDo_def split: prod.splits sum.splits)

lemma pendingError_None [simp]:
  "statePropsPrecalculationError i = None \<Longrightarrow> pendingError i = None"
  by (simp add: pendingError_def)

lemma pendingError_Some:
  "pendingError i = Some e \<longleftrightarrow> statePropsPrecalculationError i = Some e \<and> truthy_exn e"
  by (auto simp add: pendingError_def split: option.splits)

lemma render_rethrow:
  "statePropsPrecalculationError i = Some e \<Longrightarrow> truthy_exn e \<Longrightarrow>
   render cfg i = (Inl e, resetFlags i)"
  by (simp add: render_def pendingError_def)

lemma statePhase:
  assumes "(if haveStatePropsBeenPrecalculated i then (Inr True, resetFlags i)
            else if b then updateStatePropsIfNeeded cfg (resetFlags i)
            else (Inr False, resetFlags i)) = (r1, i1)"
  obtains (state) S F D new where
    "i1 = (resetFlags i)\<lparr>stateProps := S, finalMapStateToProps := F,
            doStatePropsDependOnOwnProps := D, calls := calls i @ new\<rparr>"
    "list_all is_state_call new"
    "r1 = Inr True \<Longrightarrow> haveStatePropsBeenPrecalculated i \<or> S \<noteq> stateProps i"
    "r1 \<noteq> Inr True \<Longrightarrow> S = stateProps i \<and> \<not> haveStatePropsBeenPrecalculated i"
    "new \<noteq> [] \<longleftrightarrow> \<not> haveStatePropsBeenPrecalculated i \<and> b"
proof (cases "\<not> haveStatePropsBeenPrecalculated i \<and> b")
  case True
  with assms have u: "updateStatePropsIfNeeded cfg (resetFlags i) = (r1, i1)" by simp
  obtain S F D new where
    f: "i1 = (resetFlags i)\<lparr>stateProps := S, finalMapStateToProps := F,
         doStatePropsDependOnOwnProps := D, calls := calls (resetFlags i) @ new\<rparr>"
     "list_all is_state_call new" "new \<noteq> []"
     "r1 = Inr True \<Longrightarrow> S \<noteq> stateProps (resetFlags i)" "r1 \<noteq> Inr True \<Longrightarrow> S = stateProps (resetFlags i)"
    using updateStatePropsIfNeeded_frame [OF u] by metis
  show thesis
    apply (rule that [where S=S and F=F and D=D and new=new])
    using f True by (simp_all add: resetFlags_def)
next
  case False
  with assms have e: "i1 = resetFlags i" "r1 = Inr (haveStatePropsBeenPrecalculated i)"
    by (auto split: if_splits)
  show thesis
    apply (rule that [where S="stateProps i" and F="finalMapStateToProps i" and D="doStatePropsDependOnOwnProps i" and new="[]"])
    using e False by (auto simp add: resetFlags_def)
qed

lemma dispatchPhase:
  assumes "(if b then updateDispatchPropsIfNeeded cfg i1 else (Inr False, i1)) = (r2, i2)"
  obtains (dispatch) S F D new where
    "i2 = i1\<lparr>dispatchProps := S, finalMapDispatchToProps := F,
            doDispatchPropsDependOnOwnProps := D, calls := calls i1 @ new\<rparr>"
    "list_all is_dispatch_call new"
    "r2 = Inr True \<Longrightarrow> S \<noteq> dispatchProps i1"
    "r2 \<noteq> Inr True \<Longrightarrow> S = dispatchProps i1"
    "new \<noteq> [] \<longleftrightarrow> b"
proof (cases b)
  case True
  with assms have u: "updateDispatchPropsIfNeeded cfg i1 = (r2, i2)" by simp
  obtain S F D new where
    f: "i2 = i1\<lparr>dispatchProps := S, finalMapDispatchToProps := F,
         doDispatchPropsDependOnOwnProps := D, calls := calls i1 @ new\<rparr>"
     "list_all is_dispatch_call new" "new \<noteq> []"
     "r2 = Inr True \<Longrightarrow> S \<noteq> dispatchProps i1" "r2 \<noteq> Inr True \<Longrightarrow> S = dispatchProps i1"
    using updateDispatchPropsIfNeeded_frame [OF u] by metis
  show thesis
    apply (rule that [where S=S and F=F and D=D and new=new])
    using f True by simp_all
next
  case False
  with assms have e: "i2 = i1" "r2 = Inr False" by auto
  show thesis
    apply (rule that [where S="dispatchProps i1" and F="finalMapDispatchToProps i1" and D="doDispatchPropsDependOnOwnProps i1" and new="[]"])
    using e False by auto
qed

lemma mergedPhase:
  assumes "(if b then updateMergedPropsIfNeeded cfg i2 else (Inr False, i2)) = (r3, i3)"
  obtains (merged) M new where
    "i3 = i2\<lparr>mergedProps := M, calls := calls i2 @ new\<rparr>"
    "b \<Longrightarrow> new = [MergePropsCall (stateProps i2) (dispatchProps i2) (props i2)]"
    "\<not> b \<Longrightarrow> new = []"
    "r3 = Inr True \<Longrightarrow> b \<and> (\<exists>m. M = Some m \<and> finalMergeProps cfg (stateProps i2) (dispatchProps i2) (props i2) = Inr m
          \<and> \<not> (checkMergedEquals cfg \<and> (\<exists>old. mergedProps i2 = Some old \<and> shallowEqual m old)))"
    "r3 \<noteq> Inr True \<Longrightarrow> M = mergedProps i2"
    "r3 = Inr False \<Longrightarrow> b \<Longrightarrow> checkMergedEquals cfg"
proof (cases b)
  case True
  with assms have u: "updateMergedPropsIfNeeded cfg i2 = (r3, i3)" by simp
  from u show thesis
  proof (cases rule: updateMergedPropsIfNeeded_frame)
    case (merged M)
    show thesis
      apply (rule that [where M=M and new="[MergePropsCall (stateProps i2) (dispatchProps i2) (props i2)]"])
      using merged True by simp_all
  qed
next
  case False
  with assms have e: "i3 = i2" "r3 = Inr False" by auto
  show thesis
    apply (rule that [where M="mergedProps i2" and new="[]"])
    using e False by auto
qed

lemma render_chain:
  assumes "render cfg i = (r, i')" "pendingError i = None"
  shows "thenDo (if haveStatePropsBeenPrecalculated i then (Inr True, resetFlags i)
                  else if shouldUpdateStateProps cfg i
                       then updateStatePropsIfNeeded cfg (resetFlags i)
                       else (Inr False, resetFlags i))
            (\<lambda>haveStatePropsChanged i1.
          thenDo (if shouldUpdateDispatchProps cfg i
                  then updateDispatchPropsIfNeeded cfg i1
                  else (Inr False, i1))
            (\<lambda>haveDispatchPropsChanged i2.
          thenDo (if haveStatePropsChanged \<or> haveDispatchPropsChanged \<or> haveOwnPropsChanged i
                  then updateMergedPropsIfNeeded cfg i2
                  else (Inr False, i2))
            (\<lambda>haveMergedPropsChanged i3.
               finishRender cfg haveMergedPropsChanged (renderedElement i) i3))) = (r, i')"
  using assms by (simp add: render_def)

lemma render_cases:
  assumes "render cfg i = (r, i')"
  obtains (rethrow) e where "statePropsPrecalculationError i = Some e" "r = Inl e" "i' = resetFlags i"
      "truthy_exn e"
  | (throws) e S F D S' F' D' C where "pendingError i = None" "r = Inl e"
      "i' = (resetFlags i)\<lparr>dispatchProps := S', stateProps := S,
              finalMapDispatchToProps := F', finalMapStateToProps := F,
              doStatePropsDependOnOwnProps := D, doDispatchPropsDependOnOwnProps := D',
              calls := calls i @ C\<rparr>"
  | (finished) hs hdp hm S F D newS S' F' D' newD M newM i3 where
      "pendingError i = None"
      "i3 = (resetFlags i)\<lparr>dispatchProps := S', stateProps := S, mergedProps := M,
              finalMapDispatchToProps := F', finalMapStateToProps := F,
              doStatePropsDependOnOwnProps := D, doDispatchPropsDependOnOwnProps := D',
              calls := calls i @ newS @ newD @ newM\<rparr>"
      "list_all is_state_call newS"
      "newS \<noteq> [] \<longleftrightarrow> \<not> haveStatePropsBeenPrecalculated i \<and> shouldUpdateStateProps cfg i"
      "list_all is_dispatch_call newD"
      "newD \<noteq> [] \<longleftrightarrow> shouldUpdateDispatchProps cfg i"
      "hs \<Longrightarrow> haveStatePropsBeenPrecalculated i \<or> S \<noteq> stateProps i"
      "\<not> hs \<Longrightarrow> S = stateProps i \<and> \<not> haveStatePropsBeenPrecalculated i"
      "hdp \<Longrightarrow> S' \<noteq> dispatchProps i"
      "\<not> hdp \<Longrightarrow> S' = dispatchProps i"
      "hs \<or> hdp \<or> haveOwnPropsChanged i \<Longrightarrow> newM = [MergePropsCall S S' (props i)]"
      "\<not> (hs \<or> hdp \<or> haveOwnPropsChanged i) \<Longrightarrow> newM = []"
      "hm \<Longrightarrow> (hs \<or> hdp \<or> haveOwnPropsChanged i) \<and>
              (\<exists>m. M = Some m \<and> finalMergeProps cfg S S' (props i) = Inr m \<and>
                 \<not> (checkMergedEquals cfg \<and> (\<exists>old. mergedProps i = Some old \<and> shallowEqual m old)))"
      "\<not> hm \<Longrightarrow> M = mergedProps i"
      "\<not> hm \<Longrightarrow> hs \<or> hdp \<or> haveOwnPropsChanged i \<Longrightarrow> checkMergedEquals cfg"
      "finishRender cfg hm (renderedElement i) i3 = (r, i')"
proof (cases "pendingError i")
  case (Some e)
  with assms have "r = Inl e" "i' = resetFlags i" by (simp_all add: render_def)
  with Some rethrow show thesis by (simp add: pendingError_Some)
next
  case None
  from render_chain [OF assms None] show thesis
  proof (cases rule: thenDo_cases)
    case t: (throws e)
    from t(1) show ?thesis
    proof (cases rule: statePhase)
      case (state S F D new)
      show ?thesis
        apply (rule throws [where e=e and S=S and F=F and D=D and C="new"
              and S'="dispatchProps i" and F'="finalMapDispatchToProps i"
              and D'="doDispatchPropsDependOnOwnProps i"])
        using None t(2) state(1) by (simp_all add: resetFlags_def)
    qed
  next
    case p1: (returns hs i1)
    from p1(1) show ?thesis
    proof (cases rule: statePhase)
      case (state S F D newS)
      from p1(2) show ?thesis
      proof (cases rule: thenDo_cases)
        case t: (throws e)
        from t(1) show ?thesis
        proof (cases rule: dispatchPhase)
          case (dispatch S' F' D' newD)
          show ?thesis
            apply (rule throws [where e=e and S=S and F=F and D=D and C="newS @ newD"
                  and S'=S' and F'=F' and D'=D'])
            using None t(2) state(1) dispatch(1) by (simp_all add: resetFlags_def)
        qed
      next
        case p2: (returns hdp i2)
        from p2(1) show ?thesis
        proof (cases rule: dispatchPhase)
          case (dispatch S' F' D' newD)
          have i2: "i2 = (resetFlags i)\<lparr>dispatchProps := S', stateProps := S,
              finalMapDispatchToProps := F', finalMapStateToProps := F,
              doStatePropsDependOnOwnProps := D, doDispatchPropsDependOnOwnProps := D',
              calls := calls i @ newS @ newD\<rparr>"
            using state(1) dispatch(1) by (simp add: resetFlags_def)
          from p2(2) show ?thesis
          proof (cases rule: thenDo_cases)
            case t: (throws e)
            from t(1) show ?thesis
            proof (cases rule: mergedPhase)
              case (merged M newM)
              have M: "M = mergedProps i" using merged(5) i2 by (simp add: resetFlags_def)
              show ?thesis
                apply (rule throws [where e=e and S=S and F=F and D=D and C="newS @ newD @ newM"
                      and S'=S' and F'=F' and D'=D'])
                using None t(2) i2 merged(1) M by (simp_all add: resetFlags_def)
            qed
          next
            case p3: (returns hm i3)
            from p3(1) show ?thesis
            proof (cases rule: mergedPhase)
              case (merged M newM)
              show ?thesis
                apply (rule finished [where hs=hs and hdp=hdp and hm=hm and S=S and F=F and D=D
                      and newS=newS and S'=S' and F'=F' and D'=D' and newD=newD and M=M and newM=newM and ?i3.0=i3])
                using None state dispatch merged i2 p3(2)
                by (simp_all add: resetFlags_def)
            qed
          qed
        qed
      qed
    qed
  qed
qed

lemma computeStateProps_installed:
  "finalMapStateToProps i = Some f \<Longrightarrow>
   computeStateProps cfg i =
     (invoke f (getState (store i)) (if doStatePropsDependOnOwnProps i then Some (props i) else None),
      i\<lparr>calls := calls i @ [MapStateCall f (getState (store i))
            (if doStatePropsDependOnOwnProps i then Some (props i) else None)]\<rparr>)"
  by (simp add: computeStateProps_def invokeFinalMapState_def Let_def)

lemma handleChange_eager_throws:
  assumes "pure cfg" "unsubscribe i" "\<not> strict_eq (storeState i) (getState (store i))"
    "\<not> doStatePropsDependOnOwnProps i" "computeStateProps cfg i = (Inl e, i1)"
  shows "handleChange h cfg i = setState h cfg (getState (store i))
           (i1\<lparr>statePropsPrecalculationError := Some e, haveStatePropsBeenPrecalculated := True,
               hasStoreStateChanged := True\<rparr>)"
  using assms
  by (simp add: handleChange_def tryCatch_def updateStatePropsIfNeeded_def)

lemma sameSlot_refl [simp]: "sameSlot a a"
  by (cases a) simp_all

lemma sameSlot_trans: "sameSlot a b \<Longrightarrow> sameSlot b c \<Longrightarrow> sameSlot a c"
  by (cases a) simp_all

lemma kept_refl: "kept i i"
  by (simp add: kept_def sameSlots_def)

lemma kept_trans: "kept a b \<Longrightarrow> kept b c \<Longrightarrow> kept a c"
  by (auto simp add: kept_def sameSlots_def intro: sameSlot_trans)

lemma kept_computeStateProps: "kept i (snd (computeStateProps cfg i))"
  by (auto simp add: kept_def sameSlots_def slotsFixed_def computeStateProps_def
      configureFinalMapState_def invokeFinalMapState_def Let_def split: option.splits sum.splits mapped.splits)

lemma kept_computeDispatchProps: "kept i (snd (computeDispatchProps cfg i))"
  by (auto simp add: kept_def sameSlots_def slotsFixed_def computeDispatchProps_def
      configureFinalMapDispatch_def invokeFinalMapDispatch_def Let_def split: option.splits sum.splits mapped.splits)

lemma kept_updates [simp]:
  "kept i (j\<lparr>stateProps := x\<rparr>) = kept i j"
  "kept i (j\<lparr>dispatchProps := y\<rparr>) = kept i j"
  "kept i (j\<lparr>mergedProps := z\<rparr>) = kept i j"
  "kept i (j\<lparr>calls := c\<rparr>) = kept i j"
  "kept i (j\<lparr>renderedElement := el\<rparr>) = kept i j"
  "kept i (j\<lparr>next_elem := n\<rparr>) = kept i j"
  "kept i (j\<lparr>storeState := s\<rparr>) = kept i j"
  "kept i (j\<lparr>store := st\<rparr>) = kept i j"
  "kept i (j\<lparr>props := p\<rparr>) = kept i j"
  "kept i (j\<lparr>haveOwnPropsChanged := b\<rparr>) = kept i j"
  "kept i (j\<lparr>hasStoreStateChanged := b\<rparr>) = kept i j"
  "kept i (j\<lparr>haveStatePropsBeenPrecalculated := b\<rparr>) = kept i j"
  "kept i (j\<lparr>statePropsPrecalculationError := er\<rparr>) = kept i j"
  "kept i (j\<lparr>unsubscribe := b\<rparr>) = kept i j"
  by (simp_all add: kept_def sameSlots_def slotsFixed_def)

lemma kept_updateStatePropsIfNeeded: "kept i (snd (updateStatePropsIfNeeded cfg i))"
  using kept_computeStateProps [of i cfg]
  by (cases "computeStateProps cfg i") (auto simp add: updateStatePropsIfNeeded_def split: sum.splits)

lemma kept_updateDispatchPropsIfNeeded: "kept i (snd (updateDispatchPropsIfNeeded cfg i))"
  using kept_computeDispatchProps [of i cfg]
  by (cases "computeDispatchProps cfg i") (auto simp add: updateDispatchPropsIfNeeded_def split: sum.splits)

lemma kept_updateMergedPropsIfNeeded: "kept i (snd (updateMergedPropsIfNeeded cfg i))"
  by (auto simp add: updateMergedPropsIfNeeded_def computeMergedProps_def kept_refl split: sum.splits)

lemma kept_finishRender: "kept i (snd (finishRender cfg hm prev i))"
  by (cases "hm \<or> prev = None") (auto simp add: finishRender_fresh finishRender_reuse kept_refl)

lemma kept_thenDo:
  assumes "kept i0 (snd m)" "\<And>v i1. kept i1 (snd (f v i1))"
  shows "kept i0 (snd (thenDo m f))"
proof (cases m)
  case (Pair r im)
  show ?thesis
  proof (cases r)
    case (Inl e)
    with Pair assms(1) show ?thesis by (simp add: thenDo_def)
  next
    case (Inr v)
    with Pair assms(1) assms(2) [of im v] show ?thesis
      by (auto simp add: thenDo_def intro: kept_trans)
  qed
qed

lemma kept_resetFlags [simp]: "kept i (resetFlags j) = kept i j"
  by (simp add: resetFlags_def)

lemma kept_render: "kept i (snd (render cfg i))"
proof (cases "pendingError i")
  case (Some e)
  then show ?thesis by (simp add: render_def kept_refl)
next
  case None
  have a: "\<And>j. kept j (snd (if shouldUpdateDispatchProps cfg i
                  then updateDispatchPropsIfNeeded cfg j
                  else (Inr False, j)))"
    by (simp add: kept_updateDispatchPropsIfNeeded kept_refl)
  have b: "\<And>j c. kept j (snd (if c then updateMergedPropsIfNeeded cfg j else (Inr False, j)))"
    by (simp add: kept_updateMergedPropsIfNeeded kept_refl)
  have c: "kept i (snd (if haveStatePropsBeenPrecalculated i then (Inr True, resetFlags i)
                  else if shouldUpdateStateProps cfg i
                       then updateStatePropsIfNeeded cfg (resetFlags i)
                       else (Inr False, resetFlags i)))"
    using kept_updateStatePropsIfNeeded [of "resetFlags i" cfg] 
    by (auto simp add: kept_refl resetFlags_def kept_def sameSlots_def slotsFixed_def)
  show ?thesis
    unfolding render_def None option.case
    apply (rule kept_thenDo [OF c])
    apply (rule kept_thenDo [OF a])
    apply (rule kept_thenDo [OF b])
    apply (rule kept_finishRender)
    done
qed

lemma kept_handleChange: "kept i (snd (handleChange InsideBatch cfg i))"
proof -
  have "kept i (snd (updateStatePropsIfNeeded cfg i))" by (rule kept_updateStatePropsIfNeeded)
  then show ?thesis
    by (cases "updateStatePropsIfNeeded cfg i")
       (auto simp add: handleChange_def tryCatch_def setState_def kept_refl Let_def
          split: sum.splits bool.splits)
qed

lemma kept_updateComponent: "kept i (snd (updateComponent cfg i))"
  using kept_render [of i cfg]
  by (cases "render cfg i") (simp add: updateComponent_def kept_refl)

lemma kept_processUpdate: "kept i (snd (processUpdate cfg u i))"
proof (cases u)
  case (OwnPropsUpdate np)
  have a: "kept i ((componentWillReceiveProps cfg np i)\<lparr>props := np\<rparr>)"
    by (simp add: componentWillReceiveProps_def kept_refl)
  show ?thesis
    unfolding OwnPropsUpdate processUpdate.simps
    by (rule kept_trans [OF a kept_updateComponent])
next
  case (StoreNotification s)
  define j where "j = i\<lparr>store := (store i)\<lparr>getState := s\<rparr>\<rparr>"
  obtain r i1 where h: "handleChange InsideBatch cfg j = (r, i1)"
    by (cases "handleChange InsideBatch cfg j")
  have "kept j i1" using kept_handleChange [of j cfg] h by simp
  then have k: "kept i i1" by (simp add: j_def kept_def sameSlots_def slotsFixed_def)
  note k2 = kept_trans [OF k kept_updateComponent [of i1 cfg]]
  show ?thesis
  proof (cases r)
    case (Inl e)
    with h k show ?thesis by (simp add: StoreNotification j_def [symmetric])
  next
    case (Inr b)
    with h k k2 show ?thesis by (cases b) (simp_all add: StoreNotification j_def [symmetric])
  qed
qed

lemma kept_processUpdates: "kept i (processUpdates cfg us i)"
proof (induction us arbitrary: i)
  case Nil
  show ?case by (simp add: kept_refl)
next
  case (Cons u us)
  show ?case
    using kept_trans [OF kept_processUpdate Cons.IH] by simp
qed

lemma slotsFixed_construct: "slotsFixed (construct st p)"
  by (simp add: slotsFixed_def construct_def clearCache_def)

lemma kept_componentDidMount: "kept i (snd (componentDidMount InsideBatch cfg i))"
  using kept_handleChange [of "i\<lparr>unsubscribe := True\<rparr>" cfg]
  by (simp add: componentDidMount_def trySubscribe_def kept_refl kept_def sameSlots_def slotsFixed_def)

lemma kept_mountComponent: "kept (construct st p) (snd (mountComponent cfg st p))"
proof -
  obtain r1 i1 where r: "render cfg (construct st p) = (r1, i1)" by (cases "render cfg (construct st p)")
  obtain r2 i2 where d: "componentDidMount InsideBatch cfg i1 = (r2, i2)"
    by (cases "componentDidMount InsideBatch cfg i1")
  obtain r3 i3 where u: "updateComponent cfg i2 = (r3, i3)" by (cases "updateComponent cfg i2")
  have k1: "kept (construct st p) i1" using kept_render [of "construct st p" cfg] r by simp
  have k2: "kept i1 i2" using kept_componentDidMount [of i1 cfg] d by simp
  have k3: "kept i2 i3" using kept_updateComponent [of i2 cfg] u by simp
  note k12 = kept_trans [OF k1 k2]
  note k13 = kept_trans [OF k12 k3]
  show ?thesis
    using r d u k1 k12 k13
    by (auto simp add: mountComponent_def split: sum.splits bool.splits option.splits)
qed

lemma slotsFixed_mounted: "slotsFixed (processUpdates cfg us (snd (mountComponent cfg st p)))"
  using kept_trans [OF kept_mountComponent kept_processUpdates] slotsFixed_construct
  by (auto simp add: kept_def)

lemma computeDispatchProps_installed:
  "finalMapDispatchToProps i = Some f \<Longrightarrow>
   computeDispatchProps cfg i =
     (invoke f (dispatch (store i)) (if doDispatchPropsDependOnOwnProps i then Some (props i) else None),
      i\<lparr>calls := calls i @ [MapDispatchCall f (dispatch (store i))
            (if doDispatchPropsDependOnOwnProps i then Some (props i) else None)]\<rparr>)"
  by (simp add: computeDispatchProps_def invokeFinalMapDispatch_def Let_def)

lemma configureFinalMapState_factory:
  assumes "finalMapStateToProps i = None"
    "invoke (mapState cfg) (getState (store i)) (Some (props i)) = Inr (Callable g)"
  shows "computeStateProps cfg i =
     (invoke g (getState (store i)) (secondArg g (props i)),
      i\<lparr>finalMapStateToProps := Some g, doStatePropsDependOnOwnProps := (arity g \<noteq> 1),
        calls := calls i @ [MapStateCall (mapState cfg) (getState (store i)) (Some (props i)),
                            MapStateCall g (getState (store i)) (secondArg g (props i))]\<rparr>)"
  using assms
  by (simp add: computeStateProps_def configureFinalMapState_def invokeFinalMapState_def Let_def secondArg_def)

lemma configureFinalMapState_plain:
  assumes "finalMapStateToProps i = None"
    "invoke (mapState cfg) (getState (store i)) (Some (props i)) = Inr (Plain q)"
  shows "computeStateProps cfg i =
     (Inr (Plain q),
      i\<lparr>finalMapStateToProps := Some (mapState cfg),
        doStatePropsDependOnOwnProps := (arity (mapState cfg) \<noteq> 1),
        calls := calls i @ [MapStateCall (mapState cfg) (getState (store i)) (Some (props i))]\<rparr>)"
  using assms
  by (simp add: computeStateProps_def configureFinalMapState_def Let_def)

lemma configureFinalMapDispatch_factory:
  assumes "finalMapDispatchToProps i = None"
    "invoke (mapDispatch cfg) (dispatch (store i)) (Some (props i)) = Inr (Callable g)"
  shows "computeDispatchProps cfg i =
     (invoke g (dispatch (store i)) (secondArg g (props i)),
      i\<lparr>finalMapDispatchToProps := Some g, doDispatchPropsDependOnOwnProps := (arity g \<noteq> 1),
        calls := calls i @ [MapDispatchCall (mapDispatch cfg) (dispatch (store i)) (Some (props i)),
                            MapDispatchCall g (dispatch (store i)) (secondArg g (props i))]\<rparr>)"
  using assms
  by (simp add: computeDispatchProps_def configureFinalMapDispatch_def invokeFinalMapDispatch_def Let_def secondArg_def)

lemma configureFinalMapDispatch_plain:
  assumes "finalMapDispatchToProps i = None"
    "invoke (mapDispatch cfg) (dispatch (store i)) (Some (props i)) = Inr (Plain q)"
  shows "computeDispatchProps cfg i =
     (Inr (Plain q),
      i\<lparr>finalMapDispatchToProps := Some (mapDispatch cfg),
        doDispatchPropsDependOnOwnProps := (arity (mapDispatch cfg) \<noteq> 1),
        calls := calls i @ [MapDispatchCall (mapDispatch cfg) (dispatch (store i)) (Some (props i))]\<rparr>)"
  using assms
  by (simp add: computeDispatchProps_def configureFinalMapDispatch_def Let_def)

lemma sameSlots_processUpdates:
  "finalMapStateToProps i = Some f \<Longrightarrow> finalMapStateToProps (processUpdates cfg us i) = Some f"
  "finalMapDispatchToProps i = Some h \<Longrightarrow> finalMapDispatchToProps (processUpdates cfg us i) = Some h"
  using kept_processUpdates [of i cfg us] by (simp_all add: kept_def sameSlots_def)

lemma shallowUnequal_refl [simp]: "\<not> shallowUnequal m m"
  by (cases m) (simp_all add: shallowEqual_refl)







lemma filter_state_append:
  assumes "list_all is_state_call newS" "list_all is_dispatch_call newD"
    "newM = [] \<or> newM = [MergePropsCall a b c]"
  shows "length (filter is_state_call (cs @ newS @ newD @ newM)) = length (filter is_state_call cs) + length newS"
    "length (filter is_dispatch_call (cs @ newS @ newD @ newM)) = length (filter is_dispatch_call cs) + length newD"
    "length (filter is_merge_call (cs @ newS @ newD @ newM)) = length (filter is_merge_call cs) + length newM"
  using state_calls_only [OF assms(1)] dispatch_calls_only [OF assms(2)] assms(3)
  by auto

lemma render_impure:
  assumes "render cfg i = (Inr e, i')" "\<not> pure cfg" "\<not> checkMergedEquals cfg" "noPrecalculation i"
  shows "stateCalls i < stateCalls i' \<and> dispatchCalls i < dispatchCalls i' \<and> noPrecalculation i' \<and>
    (changedInPass i i' \<longrightarrow>
       mergeCalls i' = Suc (mergeCalls i) \<and> elem_id e = next_elem i \<and>
       renderedElement i' = Some e \<and> next_elem i' = Suc (next_elem i)) \<and>
    (\<not> changedInPass i i' \<longrightarrow>
       mergeCalls i' = mergeCalls i \<and>
       (\<forall>e0. renderedElement i = Some e0 \<longrightarrow> e = e0 \<and> renderedElement i' = Some e0 \<and> next_elem i' = next_elem i))"
  using assms(1)
proof (cases rule: render_cases)
  case (rethrow e)
  then show ?thesis by simp
next
  case (throws e S F D S' F' D' C)
  then show ?thesis by simp
next
  case (finished hs hdp hm S F D newS S' F' D' newD M newM i3)
  have np: "\<not> haveStatePropsBeenPrecalculated i" using assms(4) by (simp add: noPrecalculation_def)
  have sh: "shouldUpdateStateProps cfg i" "shouldUpdateDispatchProps cfg i"
    using assms(2) by (simp_all add: shouldUpdateStateProps_def shouldUpdateDispatchProps_def)
  have nS: "newS \<noteq> []" using finished(4) np sh by simp
  have nD: "newD \<noteq> []" using finished(6) sh by simp
  have hs: "hs \<longleftrightarrow> S \<noteq> stateProps i" using finished(7,8) np by auto
  have hdp: "hdp \<longleftrightarrow> S' \<noteq> dispatchProps i" using finished(9,10) by auto
  define ch where "ch = (hs \<or> hdp \<or> haveOwnPropsChanged i)"
  have hm: "hm \<longleftrightarrow> ch" using finished(13,15) assms(3) unfolding ch_def by blast
  have nM: "newM = (if ch then [MergePropsCall S S' (props i)] else [])"
    using finished(11,12) unfolding ch_def by auto
  then have nM': "newM = [] \<or> newM = [MergePropsCall S S' (props i)]" by auto
  note cnt = filter_state_append [OF finished(3) finished(5) nM', of "calls i"]
  have c3: "stateCalls i < stateCalls i3" "dispatchCalls i < dispatchCalls i3"
     "mergeCalls i3 = mergeCalls i + (if ch then 1 else 0)"
    using cnt nS nD nM finished(2) by (simp_all add: stateCalls_def dispatchCalls_def mergeCalls_def)
  have sel3: "stateProps i3 = S" "dispatchProps i3 = S'" "renderedElement i3 = renderedElement i"
     "next_elem i3 = next_elem i" "noPrecalculation i3"
    using finished(2) by (simp_all add: resetFlags_def noPrecalculation_def)
  from finished(16) show ?thesis
  proof (cases rule: finishRender_cases)
    case (reuse e0)
    then have "\<not> ch" using hm by simp
    then have "\<not> changedInPass i i3" using hs hdp np sel3 by (simp add: changedInPass_def ch_def)
    then show ?thesis
      using reuse c3 sel3 \<open>\<not> ch\<close> by (simp add: stateCalls_def dispatchCalls_def mergeCalls_def)
  next
    case fresh
    have el: "elem_id e = next_elem i" using fresh(2) sel3 by (simp add: newElement_def)
    have i': "stateCalls i' = stateCalls i3" "dispatchCalls i' = dispatchCalls i3" "mergeCalls i' = mergeCalls i3"
      "stateProps i' = S" "dispatchProps i' = S'" "renderedElement i' = Some e"
      "next_elem i' = Suc (next_elem i)" "noPrecalculation i'"
      using fresh(2,3) sel3 by (simp_all add: stateCalls_def dispatchCalls_def mergeCalls_def noPrecalculation_def)
    have chp: "changedInPass i i' \<longleftrightarrow> ch"
      using hs hdp np i' by (simp add: changedInPass_def ch_def)
    show ?thesis
    proof (cases ch)
      case True
      then show ?thesis using chp c3 i' el by simp
    next
      case False
      with hm fresh(1) have "renderedElement i = None" by simp
      with False show ?thesis using chp c3 i' el by simp
    qed
  qed
qed

lemma render_noPrecalculation:
  assumes "render cfg i = (r, i')"
  shows "noPrecalculation i'"
  using assms
proof (cases rule: render_cases)
  case (rethrow e)
  then show ?thesis by (simp add: noPrecalculation_def resetFlags_def)
next
  case (throws e S F D S' F' D' C)
  then show ?thesis by (simp add: noPrecalculation_def resetFlags_def)
next
  case (finished hs hdp hm S F D newS S' F' D' newD M newM i3)
  from finished(16) show ?thesis
    by (cases rule: finishRender_cases) (simp_all add: finished(2) noPrecalculation_def resetFlags_def)
qed

lemma connect_impure:
  "\<not> pure (connect w ms md mp opts) \<Longrightarrow> \<not> checkMergedEquals (connect w ms md mp opts)"
  by (simp add: connect_def Let_def)

lemma handleChange_impure:
  assumes "\<not> pure cfg"
  shows "handleChange InsideBatch cfg i =
           (if unsubscribe i
            then (Inr True, i\<lparr>storeState := getState (store i), hasStoreStateChanged := True\<rparr>)
            else (Inr False, i))"
  using assms by (simp add: handleChange_def setState_def Let_def)

lemma noPrecalculation_mounted:
  assumes "\<not> pure cfg"
  shows "noPrecalculation (snd (mountComponent cfg st p))"
proof -
  obtain r1 i1 where r: "render cfg (construct st p) = (r1, i1)"
    by (cases "render cfg (construct st p)")
  have n1: "noPrecalculation i1" by (rule render_noPrecalculation [OF r])
  obtain r2 i2 where d: "componentDidMount InsideBatch cfg i1 = (r2, i2)"
    by (cases "componentDidMount InsideBatch cfg i1")
  have n2: "noPrecalculation i2"
    using d n1 assms
    by (auto simp add: componentDidMount_def trySubscribe_def handleChange_impure noPrecalculation_def
        split: if_splits)
  obtain r3 i3 where u: "updateComponent cfg i2 = (r3, i3)" by (cases "updateComponent cfg i2")
  obtain rr where "render cfg i2 = (rr, i3)"
    using u assms by (cases "render cfg i2") (simp add: updateComponent_def shouldComponentUpdate_def)
  then have n3: "noPrecalculation i3" by (rule render_noPrecalculation)
  show ?thesis
    using r d u n1 n2 n3
    by (auto simp add: mountComponent_def split: sum.splits bool.splits option.splits)
qed

lemma render_calls: "\<exists>new. calls (snd (render cfg i)) = calls i @ new"
proof -
  obtain r i' where r: "render cfg i = (r, i')" by (cases "render cfg i")
  from r have "\<exists>new. calls i' = calls i @ new"
  proof (cases rule: render_cases)
    case (rethrow e)
    then show ?thesis by (simp add: resetFlags_def)
  next
    case (throws e S F D S' F' D' C)
    then show ?thesis by (simp add: resetFlags_def)
  next
    case (finished hs hdp hm S F D newS S' F' D' newD M newM i3)
    from finished(16) show ?thesis
      by (cases rule: finishRender_cases) (simp_all add: finished(2) resetFlags_def)
  qed
  with r show ?thesis by simp
qed

lemma updateComponent_calls: "\<exists>new. calls (snd (updateComponent cfg i)) = calls i @ new"
  using render_calls [of cfg i]
  by (cases "render cfg i") (auto simp add: updateComponent_def)

lemma setState_calls: "\<exists>new. calls (snd (setState h cfg s i)) = calls i @ new"
proof (cases h)
  case InsideBatch
  then show ?thesis by (simp add: setState_def)
next
  case OutsideBatch
  obtain r i' where u: "updateComponent cfg (i\<lparr>storeState := s\<rparr>) = (r, i')"
    by (cases "updateComponent cfg (i\<lparr>storeState := s\<rparr>)")
  from updateComponent_calls [of cfg "i\<lparr>storeState := s\<rparr>"] u
  obtain new where "calls i' = calls i @ new" by auto
  then show ?thesis
    using OutsideBatch u by (auto simp add: setState_def split: option.splits sum.splits)
qed

text \<open>
  A listener called outside a batch does what a listener called inside a batch does,
  followed by the host update when one was asked for.
\<close>

lemma setState_OutsideBatch:
  "setState OutsideBatch cfg s i =
     (case setState InsideBatch cfg s i of
        (Inr True, i1) \<Rightarrow>
          (case updateComponent cfg i1 of
             (Some (Inl e), i2) \<Rightarrow> (Inl e, i2)
           | (Some (Inr el), i2) \<Rightarrow> (Inr True, i2)
           | (None, i2) \<Rightarrow> (Inr True, i2))
      | other \<Rightarrow> other)"
  by (simp add: setState_def)

lemma handleChange_OutsideBatch:
  "handleChange OutsideBatch cfg i =
     (case handleChange InsideBatch cfg i of
        (Inr True, i1) \<Rightarrow>
          (case updateComponent cfg i1 of
             (Some (Inl e), i2) \<Rightarrow> (Inl e, i2)
           | (Some (Inr el), i2) \<Rightarrow> (Inr True, i2)
           | (None, i2) \<Rightarrow> (Inr True, i2))
      | other \<Rightarrow> other)"
proof -
  obtain c i1 where t: "tryCatch (updateStatePropsIfNeeded cfg) i = (c, i1)"
    by (cases "tryCatch (updateStatePropsIfNeeded cfg) i")
  have ins: "\<And>s j. setState InsideBatch cfg s j = (Inr True, j\<lparr>storeState := s\<rparr>)"
    by (simp add: setState_def)
  show ?thesis
  proof (cases c)
    case (ErrorObject e)
    with t show ?thesis
      by (simp add: handleChange_def Let_def setState_OutsideBatch ins)
  next
    case (Returned b)
    with t show ?thesis
      by (cases b) (simp_all add: handleChange_def Let_def setState_OutsideBatch ins)
  qed
qed

lemma handleChange_eager_throws_InsideBatch:
  assumes "pure cfg" "unsubscribe i" "\<not> strict_eq (storeState i) (getState (store i))"
    "\<not> doStatePropsDependOnOwnProps i" "computeStateProps cfg i = (Inl e, i1)"
  shows "handleChange InsideBatch cfg i = (Inr True, i1\<lparr>storeState := getState (store i),
            hasStoreStateChanged := True, haveStatePropsBeenPrecalculated := True,
            statePropsPrecalculationError := Some e\<rparr>)"
  using handleChange_eager_throws [OF assms, of InsideBatch] by (simp add: setState_def)

lemma updateComponent_rethrows:
  assumes "pure cfg" "hasStoreStateChanged i" "statePropsPrecalculationError i = Some e"
    "truthy_exn e"
  shows "updateComponent cfg i =
           (Some (Inl e), i\<lparr>haveOwnPropsChanged := False, hasStoreStateChanged := False,
                              haveStatePropsBeenPrecalculated := False,
                              statePropsPrecalculationError := None\<rparr>)"
  using assms
  by (simp add: updateComponent_def shouldComponentUpdate_def render_rethrow resetFlags_def)

lemma handleChange_eager_throws_OutsideBatch:
  assumes "pure cfg" "unsubscribe i" "\<not> strict_eq (storeState i) (getState (store i))"
    "\<not> doStatePropsDependOnOwnProps i" "computeStateProps cfg i = (Inl e, i1)" "truthy_exn e"
  shows "handleChange OutsideBatch cfg i = (Inl e, i1\<lparr>storeState := getState (store i),
            haveOwnPropsChanged := False, hasStoreStateChanged := False,
            haveStatePropsBeenPrecalculated := False, statePropsPrecalculationError := None\<rparr>)"
proof -
  let ?j = "i1\<lparr>storeState := getState (store i),
            hasStoreStateChanged := True, haveStatePropsBeenPrecalculated := True,
            statePropsPrecalculationError := Some e\<rparr>"
  have u: "updateComponent cfg ?j =
           (Some (Inl e), ?j\<lparr>haveOwnPropsChanged := False, hasStoreStateChanged := False,
                              haveStatePropsBeenPrecalculated := False,
                              statePropsPrecalculationError := None\<rparr>)"
    by (rule updateComponent_rethrows) (simp_all add: assms(1,6))
  show ?thesis
    unfolding handleChange_OutsideBatch handleChange_eager_throws_InsideBatch [OF assms(1-5)]
    using u by simp
qed

section \<open>The cache follows the inputs\<close>

subsection \<open>Shallow equality is equality of content\<close>

lemma shallowEqual_iff: "shallowEqual a b \<longleftrightarrow> map_of a = map_of b"
proof
  assume s: "shallowEqual a b"
  show "map_of a = map_of b"
  proof
    fix k
    show "map_of a k = map_of b k"
    proof (cases "k \<in> fst ` set a")
      case True
      with s show ?thesis by (auto simp add: shallowEqual_def list_all_iff)
    next
      case False
      with s have "k \<notin> fst ` set b" by (auto simp add: shallowEqual_def list_all_iff)
      with False have "map_of a k = None" "map_of b k = None"
        by (simp_all add: map_of_eq_None_iff)
      then show ?thesis by simp
    qed
  qed
next
  assume m: "map_of a = map_of b"
  then have "dom (map_of a) = dom (map_of b)" by simp
  then have d: "fst ` set a = fst ` set b" by (simp add: dom_map_of_conv_image_fst)
  show "shallowEqual a b"
    using m d by (auto simp add: shallowEqual_def list_all_iff)
qed

lemma shallowEqual_sym: "shallowEqual a b \<Longrightarrow> shallowEqual b a"
  by (simp add: shallowEqual_iff)


subsection \<open>A render pass with both mappings resolved\<close>









subsection \<open>What well-behaved functions give\<close>











subsection \<open>Every update keeps the cache up to date\<close>



lemma slotsFixed_updates [simp]:
  "slotsFixed (j\<lparr>stateProps := x\<rparr>) = slotsFixed j"
  "slotsFixed (j\<lparr>dispatchProps := y\<rparr>) = slotsFixed j"
  "slotsFixed (j\<lparr>mergedProps := z\<rparr>) = slotsFixed j"
  "slotsFixed (j\<lparr>calls := c\<rparr>) = slotsFixed j"
  "slotsFixed (j\<lparr>renderedElement := el\<rparr>) = slotsFixed j"
  "slotsFixed (j\<lparr>next_elem := n\<rparr>) = slotsFixed j"
  "slotsFixed (j\<lparr>storeState := s\<rparr>) = slotsFixed j"
  "slotsFixed (j\<lparr>store := st\<rparr>) = slotsFixed j"
  "slotsFixed (j\<lparr>props := p\<rparr>) = slotsFixed j"
  "slotsFixed (j\<lparr>haveOwnPropsChanged := b\<rparr>) = slotsFixed j"
  "slotsFixed (j\<lparr>hasStoreStateChanged := b\<rparr>) = slotsFixed j"
  "slotsFixed (j\<lparr>haveStatePropsBeenPrecalculated := b\<rparr>) = slotsFixed j"
  "slotsFixed (j\<lparr>statePropsPrecalculationError := er\<rparr>) = slotsFixed j"
  "slotsFixed (j\<lparr>unsubscribe := b\<rparr>) = slotsFixed j"
  by (simp_all add: slotsFixed_def)



subsection \<open>Sequences of updates\<close>











subsection \<open>The first render pass and mounting\<close>











section \<open>Evaluating the scenarios\<close>

lemmas method_defs =
  render_def thenDo_def resetFlags_def shouldUpdateStateProps_def shouldUpdateDispatchProps_def
  updateStatePropsIfNeeded_def updateDispatchPropsIfNeeded_def updateMergedPropsIfNeeded_def
  computeMergedProps_def computeStateProps_def computeDispatchProps_def configureFinalMapState_def
  configureFinalMapDispatch_def invokeFinalMapState_def invokeFinalMapDispatch_def finishRender_def
  createElement_def spread_opt_def construct_def clearCache_def connect_def defaultMergeProps_def
  defaultMapDispatchToProps_def defaultMapStateToProps_def spread_def shallowEqual_def Let_def
  handleChange_def tryCatch_def setState_def strict_eq_def trySubscribe_def componentDidMount_def
  pendingError_def
  mountComponent_def updateComponent_def shouldComponentUpdate_def componentWillReceiveProps_def

lemmas scenario_defs =
  state0_def state0'_def state1_def counterStore_def countOf_def countMapping_def
  failingMapping_def nullThrowingMapping_def nullThrowingConfig_def
  idOf_def ownMapping_def ownMergingConfig_def
  factoryMapping_def dispatchFactory_def stateOnlyMerge_def noActionCreators_def
  defaultOptions_def impureOptions_def pureConfig_def impureConfig_def mergingConfig_def
  impureMergingConfig_def failingConfig_def factoryConfig_def mounted_def

lemmas count_defs =
  stateCalls_def dispatchCalls_def mergeCalls_def changedInPass_def noPrecalculation_def
  slotsFixed_def secondArg_def elementsProduced_def

section \<open>The claims\<close>

subsection \<open>C7: installing a mapping\<close>

text \<open>
  C7. On the first computation for a mapping slot (no resolved mapping yet), the raw
  mapping function is invoked with the source and the own-properties. If it returns a
  function, that function is stored as the slot's resolved mapping and is invoked at
  once, with the arguments its declared parameter count asks for, to give the partial. If
  it returns a plain object, the raw function becomes the resolved mapping and that object
  is the partial. This holds for the state slot and for the dispatch slot. A resolved
  mapping, once stored, is the slot's resolved mapping after every sequence of
  own-properties updates and store notifications; only \<open>clearCache\<close> (unmounting)
  removes it.
\<close>

theorem first_computation_installs_mapping:
  "(finalMapStateToProps i = None \<longrightarrow>
      (\<forall>g. invoke (mapState cfg) (getState (store i)) (Some (props i)) = Inr (Callable g) \<longrightarrow>
         computeStateProps cfg i =
           (invoke g (getState (store i)) (secondArg g (props i)),
            i\<lparr>finalMapStateToProps := Some g, doStatePropsDependOnOwnProps := (arity g \<noteq> 1),
              calls := calls i @ [MapStateCall (mapState cfg) (getState (store i)) (Some (props i)),
                                  MapStateCall g (getState (store i)) (secondArg g (props i))]\<rparr>)) \<and>
      (\<forall>q. invoke (mapState cfg) (getState (store i)) (Some (props i)) = Inr (Plain q) \<longrightarrow>
         computeStateProps cfg i =
           (Inr (Plain q),
            i\<lparr>finalMapStateToProps := Some (mapState cfg),
              doStatePropsDependOnOwnProps := (arity (mapState cfg) \<noteq> 1),
              calls := calls i @ [MapStateCall (mapState cfg) (getState (store i)) (Some (props i))]\<rparr>))) \<and>
   (finalMapDispatchToProps i = None \<longrightarrow>
      (\<forall>g. invoke (mapDispatch cfg) (dispatch (store i)) (Some (props i)) = Inr (Callable g) \<longrightarrow>
         computeDispatchProps cfg i =
           (invoke g (dispatch (store i)) (secondArg g (props i)),
            i\<lparr>finalMapDispatchToProps := Some g, doDispatchPropsDependOnOwnProps := (arity g \<noteq> 1),
              calls := calls i @ [MapDispatchCall (mapDispatch cfg) (dispatch (store i)) (Some (props i)),
                                  MapDispatchCall g (dispatch (store i)) (secondArg g (props i))]\<rparr>)) \<and>
      (\<forall>q. invoke (mapDispatch cfg) (dispatch (store i)) (Some (props i)) = Inr (Plain q) \<longrightarrow>
         computeDispatchProps cfg i =
           (Inr (Plain q),
            i\<lparr>finalMapDispatchToProps := Some (mapDispatch cfg),
              doDispatchPropsDependOnOwnProps := (arity (mapDispatch cfg) \<noteq> 1),
              calls := calls i @ [MapDispatchCall (mapDispatch cfg) (dispatch (store i)) (Some (props i))]\<rparr>))) \<and>
   (\<forall>f. finalMapStateToProps i = Some f \<longrightarrow> finalMapStateToProps (processUpdates cfg us i) = Some f) \<and>
   (\<forall>h. finalMapDispatchToProps i = Some h \<longrightarrow> finalMapDispatchToProps (processUpdates cfg us i) = Some h)"
  using configureFinalMapState_factory [of i cfg] configureFinalMapState_plain [of i cfg]
    configureFinalMapDispatch_factory [of i cfg] configureFinalMapDispatch_plain [of i cfg]
    sameSlots_processUpdates [of i _ cfg us]
  by blast

text \<open>
  The factory scenario: the first computation of each slot invokes the factory with the
  own-properties, stores the function it returns and invokes that one with the source
  only. In the plain scenario the raw mappings return objects and are stored
  themselves. The stored mappings survive a store notification and an own-properties
  update.
\<close>

theorem first_computation_installs_mapping_witness:
  "finalMapStateToProps (construct counterStore [(''id'', Num 1)]) = None \<and>
   finalMapDispatchToProps (construct counterStore [(''id'', Num 1)]) = None \<and>
   computeStateProps factoryConfig (construct counterStore [(''id'', Num 1)]) =
     (Inr (Plain [(''count'', Num 0)]),
      (construct counterStore [(''id'', Num 1)])
        \<lparr>finalMapStateToProps := Some countMapping, doStatePropsDependOnOwnProps := False,
         calls := [MapStateCall factoryMapping state0 (Some [(''id'', Num 1)]),
                   MapStateCall countMapping state0 None]\<rparr>) \<and>
   computeDispatchProps factoryConfig (construct counterStore [(''id'', Num 1)]) =
     (Inr (Plain [(''dispatch'', Ref 0)]),
      (construct counterStore [(''id'', Num 1)])
        \<lparr>finalMapDispatchToProps := Some defaultMapDispatchToProps,
         doDispatchPropsDependOnOwnProps := False,
         calls := [MapDispatchCall dispatchFactory (Ref 0) (Some [(''id'', Num 1)]),
                   MapDispatchCall defaultMapDispatchToProps (Ref 0) None]\<rparr>) \<and>
   computeStateProps pureConfig (construct counterStore [(''id'', Num 1)]) =
     (Inr (Plain [(''count'', Num 0)]),
      (construct counterStore [(''id'', Num 1)])
        \<lparr>finalMapStateToProps := Some countMapping, doStatePropsDependOnOwnProps := False,
         calls := [MapStateCall countMapping state0 (Some [(''id'', Num 1)])]\<rparr>) \<and>
   computeDispatchProps pureConfig (construct counterStore [(''id'', Num 1)]) =
     (Inr (Plain [(''dispatch'', Ref 0)]),
      (construct counterStore [(''id'', Num 1)])
        \<lparr>finalMapDispatchToProps := Some defaultMapDispatchToProps,
         doDispatchPropsDependOnOwnProps := False,
         calls := [MapDispatchCall defaultMapDispatchToProps (Ref 0) (Some [(''id'', Num 1)])]\<rparr>) \<and>
   finalMapStateToProps (mounted factoryConfig [(''id'', Num 1)]) = Some countMapping \<and>
   finalMapDispatchToProps (mounted factoryConfig [(''id'', Num 1)]) = Some defaultMapDispatchToProps \<and>
   finalMapStateToProps
     (processUpdates factoryConfig [StoreNotification state1, OwnPropsUpdate [(''id'', Num 2)]]
        (mounted factoryConfig [(''id'', Num 1)])) = Some countMapping \<and>
   finalMapDispatchToProps
     (processUpdates factoryConfig [StoreNotification state1, OwnPropsUpdate [(''id'', Num 2)]]
        (mounted factoryConfig [(''id'', Num 1)])) = Some defaultMapDispatchToProps"
proof -
  let ?i = "construct counterStore [(''id'', Num 1)]"
  let ?m = "mounted factoryConfig [(''id'', Num 1)]"
  let ?us = "[StoreNotification state1, OwnPropsUpdate [(''id'', Num 2)]]"
  have n: "finalMapStateToProps ?i = None" "finalMapDispatchToProps ?i = None"
    by (simp_all add: construct_def clearCache_def)
  have sel: "getState (store ?i) = state0" "dispatch (store ?i) = Ref 0" "props ?i = [(''id'', Num 1)]"
    "calls ?i = []"
    by (simp_all add: construct_def clearCache_def counterStore_def)
  have raw: "mapState factoryConfig = factoryMapping" "mapDispatch factoryConfig = dispatchFactory"
    "mapState pureConfig = countMapping" "mapDispatch pureConfig = defaultMapDispatchToProps"
    by (simp_all add: factoryConfig_def pureConfig_def connect_def)
  have ar: "secondArg countMapping [(''id'', Num 1)] = None"
    "secondArg defaultMapDispatchToProps [(''id'', Num 1)] = None"
    "arity countMapping = 1" "arity defaultMapDispatchToProps = 1"
    by (simp_all add: secondArg_def countMapping_def defaultMapDispatchToProps_def)
  have inv: "invoke factoryMapping state0 (Some [(''id'', Num 1)]) = Inr (Callable countMapping)"
    "invoke dispatchFactory (Ref 0) (Some [(''id'', Num 1)]) = Inr (Callable defaultMapDispatchToProps)"
    "invoke countMapping state0 (Some [(''id'', Num 1)]) = Inr (Plain [(''count'', Num 0)])"
    "invoke countMapping state0 None = Inr (Plain [(''count'', Num 0)])"
    "invoke defaultMapDispatchToProps (Ref 0) (Some [(''id'', Num 1)]) = Inr (Plain [(''dispatch'', Ref 0)])"
    "invoke defaultMapDispatchToProps (Ref 0) None = Inr (Plain [(''dispatch'', Ref 0)])"
    by (simp_all add: scenario_defs defaultMapDispatchToProps_def)
  have m: "finalMapStateToProps ?m = Some countMapping"
    "finalMapDispatchToProps ?m = Some defaultMapDispatchToProps"
    by (simp_all add: method_defs scenario_defs)
  note f = first_computation_installs_mapping [of ?i factoryConfig ?us, unfolded sel raw]
  note q = first_computation_installs_mapping [of ?i pureConfig ?us, unfolded sel raw]
  note t = first_computation_installs_mapping [of ?m factoryConfig ?us]
  have a: "computeStateProps factoryConfig ?i =
     (Inr (Plain [(''count'', Num 0)]),
      ?i\<lparr>finalMapStateToProps := Some countMapping, doStatePropsDependOnOwnProps := False,
         calls := [MapStateCall factoryMapping state0 (Some [(''id'', Num 1)]),
                   MapStateCall countMapping state0 None]\<rparr>)"
    using f n inv ar by simp
  have b: "computeDispatchProps factoryConfig ?i =
     (Inr (Plain [(''dispatch'', Ref 0)]),
      ?i\<lparr>finalMapDispatchToProps := Some defaultMapDispatchToProps,
         doDispatchPropsDependOnOwnProps := False,
         calls := [MapDispatchCall dispatchFactory (Ref 0) (Some [(''id'', Num 1)]),
                   MapDispatchCall defaultMapDispatchToProps (Ref 0) None]\<rparr>)"
    using f n inv ar by simp
  have c: "computeStateProps pureConfig ?i =
     (Inr (Plain [(''count'', Num 0)]),
      ?i\<lparr>finalMapStateToProps := Some countMapping, doStatePropsDependOnOwnProps := False,
         calls := [MapStateCall countMapping state0 (Some [(''id'', Num 1)])]\<rparr>)"
    using q n inv ar by simp
  have d: "computeDispatchProps pureConfig ?i =
     (Inr (Plain [(''dispatch'', Ref 0)]),
      ?i\<lparr>finalMapDispatchToProps := Some defaultMapDispatchToProps,
         doDispatchPropsDependOnOwnProps := False,
         calls := [MapDispatchCall defaultMapDispatchToProps (Ref 0) (Some [(''id'', Num 1)])]\<rparr>)"
    using q n inv ar by simp
  have e: "finalMapStateToProps (processUpdates factoryConfig ?us ?m) = Some countMapping"
    "finalMapDispatchToProps (processUpdates factoryConfig ?us ?m) = Some defaultMapDispatchToProps"
    using t m by blast+
  from n a b c d m e show ?thesis by blast
qed

subsection \<open>C6: the second argument follows the declared parameter count\<close>

text \<open>
  C6 as written fails. It says that a resolved mapping of arity 1 never receives the
  own-properties. The installing call does pass them: \<open>configureFinalMapState\<close> invokes
  the raw mapping with \<open>(state, props)\<close> whatever its arity, and when the raw mapping is
  no factory it is that very function that becomes the resolved mapping. In the
  scenario below \<open>countMapping\<close>, of arity 1, is invoked with the own-properties and is
  the resolved mapping afterwards.
\<close>

theorem installing_call_passes_own_props:
  "arity countMapping = 1 \<and>
   calls (snd (computeStateProps pureConfig (construct counterStore [(''id'', Num 1)]))) =
     [MapStateCall countMapping state0 (Some [(''id'', Num 1)])] \<and>
   finalMapStateToProps (snd (computeStateProps pureConfig (construct counterStore [(''id'', Num 1)])))
     = Some countMapping"
  by (simp add: method_defs scenario_defs)

text \<open>
  C6, as amended. Once a slot has its resolved mapping, with the dependency flag set from
  the mapping's declared parameter count (\<open>slotsFixed\<close>, which the constructor
  establishes and every update keeps), each computation invokes a resolved mapping of
  arity exactly 1 with the source only, and a resolved mapping of any other arity with
  the own-properties as second argument. The same holds for the function a factory
  returned, from its first invocation on.
\<close>

theorem installed_mapping_args_follow_arity:
  assumes "slotsFixed i"
  shows "slotsFixed (processUpdates cfg us i) \<and>
    (\<forall>f. finalMapStateToProps i = Some f \<longrightarrow>
       computeStateProps cfg i =
         (invoke f (getState (store i)) (secondArg f (props i)),
          i\<lparr>calls := calls i @ [MapStateCall f (getState (store i)) (secondArg f (props i))]\<rparr>)) \<and>
    (\<forall>h. finalMapDispatchToProps i = Some h \<longrightarrow>
       computeDispatchProps cfg i =
         (invoke h (dispatch (store i)) (secondArg h (props i)),
          i\<lparr>calls := calls i @ [MapDispatchCall h (dispatch (store i)) (secondArg h (props i))]\<rparr>))"
proof (intro conjI allI impI)
  show "slotsFixed (processUpdates cfg us i)"
    using kept_processUpdates [of i cfg us] assms by (simp add: kept_def)
next
  fix f assume f: "finalMapStateToProps i = Some f"
  with assms have "doStatePropsDependOnOwnProps i = (arity f \<noteq> 1)" by (simp add: slotsFixed_def)
  then show "computeStateProps cfg i =
         (invoke f (getState (store i)) (secondArg f (props i)),
          i\<lparr>calls := calls i @ [MapStateCall f (getState (store i)) (secondArg f (props i))]\<rparr>)"
    using computeStateProps_installed [OF f, of cfg] by (simp add: secondArg_def)
next
  fix h assume h: "finalMapDispatchToProps i = Some h"
  with assms have "doDispatchPropsDependOnOwnProps i = (arity h \<noteq> 1)" by (simp add: slotsFixed_def)
  then show "computeDispatchProps cfg i =
         (invoke h (dispatch (store i)) (secondArg h (props i)),
          i\<lparr>calls := calls i @ [MapDispatchCall h (dispatch (store i)) (secondArg h (props i))]\<rparr>)"
    using computeDispatchProps_installed [OF h, of cfg] by (simp add: secondArg_def)
qed

theorem installed_mapping_args_follow_arity_witness:
  "slotsFixed (mounted pureConfig [(''id'', Num 1)]) \<and>
   finalMapStateToProps (mounted pureConfig [(''id'', Num 1)]) = Some countMapping \<and>
   slotsFixed (processUpdates pureConfig [StoreNotification state1] (mounted pureConfig [(''id'', Num 1)])) \<and>
   calls (snd (computeStateProps pureConfig (mounted pureConfig [(''id'', Num 1)]))) =
     calls (mounted pureConfig [(''id'', Num 1)]) @ [MapStateCall countMapping state0 None] \<and>
   finalMapDispatchToProps (mounted pureConfig [(''id'', Num 1)]) = Some defaultMapDispatchToProps \<and>
   calls (snd (computeDispatchProps pureConfig (mounted pureConfig [(''id'', Num 1)]))) =
     calls (mounted pureConfig [(''id'', Num 1)]) @ [MapDispatchCall defaultMapDispatchToProps (Ref 0) None]"
proof -
  let ?i = "mounted pureConfig [(''id'', Num 1)]"
  have a: "slotsFixed ?i" by (simp add: slotsFixed_def method_defs scenario_defs)
  have b: "finalMapStateToProps ?i = Some countMapping" by (simp add: method_defs scenario_defs)
  have g: "getState (store ?i) = state0" by (simp add: method_defs scenario_defs)
  note t = installed_mapping_args_follow_arity [OF a, of pureConfig "[StoreNotification state1]"]
  from t have c: "slotsFixed (processUpdates pureConfig [StoreNotification state1] ?i)" by blast
  from t b have "computeStateProps pureConfig ?i =
         (invoke countMapping (getState (store ?i)) (secondArg countMapping (props ?i)),
          ?i\<lparr>calls := calls ?i @ [MapStateCall countMapping (getState (store ?i))
                                     (secondArg countMapping (props ?i))]\<rparr>)" by blast
  then have d: "calls (snd (computeStateProps pureConfig ?i)) =
     calls ?i @ [MapStateCall countMapping state0 None]"
    by (simp add: g secondArg_def countMapping_def)
  have b': "finalMapDispatchToProps ?i = Some defaultMapDispatchToProps"
    by (simp add: method_defs scenario_defs)
  have g': "dispatch (store ?i) = Ref 0" by (simp add: method_defs scenario_defs)
  from t b' have "computeDispatchProps pureConfig ?i =
         (invoke defaultMapDispatchToProps (dispatch (store ?i))
            (secondArg defaultMapDispatchToProps (props ?i)),
          ?i\<lparr>calls := calls ?i @ [MapDispatchCall defaultMapDispatchToProps (dispatch (store ?i))
                                     (secondArg defaultMapDispatchToProps (props ?i))]\<rparr>)" by blast
  then have d': "calls (snd (computeDispatchProps pureConfig ?i)) =
     calls ?i @ [MapDispatchCall defaultMapDispatchToProps (Ref 0) None]"
    by (simp add: g' secondArg_def defaultMapDispatchToProps_def)
  from a b c d b' d' show ?thesis by blast
qed

subsection \<open>C8: when the recomputed MergedProps is compared\<close>

text \<open>
  C8 as written fails. It makes the comparison depend on the merge function alone. The
  source computes \<open>checkMergedEquals = pure && finalMergeProps !== defaultMergeProps\<close>:
  with \<open>pure\<close> off a supplied merge function is not compared either. In the scenario
  below a merge function is supplied, \<open>pure\<close> is off, the recomputed MergedProps is
  shallow-equal to the cached one, and the update still reports a change.
\<close>

theorem impure_custom_merge_skips_comparison:
  "finalMergeProps impureMergingConfig
      (stateProps (mounted impureMergingConfig [(''id'', Num 1)]))
      (dispatchProps (mounted impureMergingConfig [(''id'', Num 1)]))
      (props (mounted impureMergingConfig [(''id'', Num 1)])) = Inr [(''count'', Num 0)] \<and>
   mergedProps (mounted impureMergingConfig [(''id'', Num 1)]) = Some [(''count'', Num 0)] \<and>
   shallowEqual [(''count'', Num 0)] [(''count'', Num 0)] \<and>
   fst (updateMergedPropsIfNeeded impureMergingConfig (mounted impureMergingConfig [(''id'', Num 1)]))
     = Inr True"
  by (simp add: method_defs scenario_defs)

text \<open>
  C8, as amended. For a configuration built by \<open>connect\<close> and a merge function that
  returns: the recomputed MergedProps is compared with the cached one if and only if
  \<open>pure\<close> is on and a merge function was supplied (and there is a cached one); the
  update reports no change exactly when that comparison is made and finds them
  shallow-equal. In every other case, the default merge function among them, it reports a
  change.
\<close>

theorem merged_comparison_needs_pure_and_custom_merge:
  assumes "cfg = connect w ms md mp opts"
    "finalMergeProps cfg (stateProps i) (dispatchProps i) (props i) = Inr nxt"
  shows "fst (updateMergedPropsIfNeeded cfg i) =
           Inr (\<not> ((pure cfg \<and> mp \<noteq> None) \<and>
                   (case mergedProps i of None \<Rightarrow> False | Some old \<Rightarrow> shallowEqual nxt old)))"
  using assms(2) unfolding assms(1)
  by (simp add: updateMergedPropsIfNeeded_def computeMergedProps_def connect_def Let_def split: option.splits)

theorem merged_comparison_needs_pure_and_custom_merge_witness:
  "mergingConfig = connect noActionCreators (Some countMapping) NoMapDispatch (Some stateOnlyMerge)
                     defaultOptions \<and>
   finalMergeProps mergingConfig (stateProps (mounted mergingConfig [(''id'', Num 1)]))
      (dispatchProps (mounted mergingConfig [(''id'', Num 1)]))
      (props (mounted mergingConfig [(''id'', Num 1)])) = Inr [(''count'', Num 0)] \<and>
   pure mergingConfig \<and>
   fst (updateMergedPropsIfNeeded mergingConfig (mounted mergingConfig [(''id'', Num 1)])) = Inr False"
proof -
  let ?i = "mounted mergingConfig [(''id'', Num 1)]"
  have a: "mergingConfig = connect noActionCreators (Some countMapping) NoMapDispatch
             (Some stateOnlyMerge) defaultOptions"
    by (simp add: mergingConfig_def)
  have b: "finalMergeProps mergingConfig (stateProps ?i) (dispatchProps ?i) (props ?i)
             = Inr [(''count'', Num 0)]"
    by (simp add: method_defs scenario_defs)
  have c: "pure mergingConfig" by (simp add: method_defs scenario_defs)
  have d: "mergedProps ?i = Some [(''count'', Num 0)]" by (simp add: method_defs scenario_defs)
  from merged_comparison_needs_pure_and_custom_merge [OF a b]
  have "fst (updateMergedPropsIfNeeded mergingConfig ?i) = Inr False"
    using c d by (simp add: shallowEqual_refl)
  with a b c show ?thesis by blast
qed

subsection \<open>C3: a notification with the recorded state\<close>

text \<open>
  C3 as written fails. It holds for every store notification only when \<open>pure\<close> is on:
  the source tests \<open>pure && prevStoreState === storeState\<close>. With \<open>pure\<close> off, a
  subscribed instance that is notified while the store still returns the recorded state
  object asks for a host update, and the render pass that follows invokes the state
  mapping again.
\<close>

theorem impure_identical_state_requests_update:
  "unsubscribe (mounted impureConfig [(''id'', Num 1)]) \<and>
   strict_eq (storeState (mounted impureConfig [(''id'', Num 1)]))
             (getState (store (mounted impureConfig [(''id'', Num 1)]))) \<and>
   fst (handleChange InsideBatch impureConfig (mounted impureConfig [(''id'', Num 1)])) = Inr True \<and>
   fst (handleChange OutsideBatch impureConfig (mounted impureConfig [(''id'', Num 1)])) = Inr True \<and>
   stateCalls (snd (handleChange OutsideBatch impureConfig (mounted impureConfig [(''id'', Num 1)])))
     = Suc (stateCalls (mounted impureConfig [(''id'', Num 1)])) \<and>
   stateCalls (snd (processUpdate impureConfig (StoreNotification state0)
                      (mounted impureConfig [(''id'', Num 1)])))
     = Suc (stateCalls (mounted impureConfig [(''id'', Num 1)]))"
  by (simp add: method_defs scenario_defs stateCalls_def)

text \<open>
  C3, as amended. With \<open>pure\<close> on, a notification that finds the store returning the state
  object recorded before leaves the handler at once, inside a batch of the host or
  outside. The instance is as it was, so no mapping function was invoked; no host update
  is asked for, and no render pass runs.
\<close>

theorem pure_identical_state_is_ignored:
  assumes "pure cfg" "strict_eq (storeState i) s"
  shows "handleChange h cfg (i\<lparr>store := (store i)\<lparr>getState := s\<rparr>\<rparr>)
           = (Inr False, i\<lparr>store := (store i)\<lparr>getState := s\<rparr>\<rparr>) \<and>
         processUpdate cfg (StoreNotification s) i = (None, i\<lparr>store := (store i)\<lparr>getState := s\<rparr>\<rparr>)"
proof -
  have "\<And>h. handleChange h cfg (i\<lparr>store := (store i)\<lparr>getState := s\<rparr>\<rparr>)
           = (Inr False, i\<lparr>store := (store i)\<lparr>getState := s\<rparr>\<rparr>)"
    using assms by (simp add: handleChange_def)
  then show ?thesis by simp
qed

text \<open>Scenario A: two notifications with the state object of the mount render nothing.\<close>

theorem pure_identical_state_is_ignored_witness:
  "pure pureConfig \<and> strict_eq (storeState (mounted pureConfig [(''id'', Num 1)])) state0 \<and>
   processUpdates pureConfig [StoreNotification state0, StoreNotification state0]
       (mounted pureConfig [(''id'', Num 1)]) = mounted pureConfig [(''id'', Num 1)] \<and>
   elementsProduced pureConfig [StoreNotification state0, StoreNotification state0]
       (mounted pureConfig [(''id'', Num 1)]) = 0"
proof -
  let ?i = "mounted pureConfig [(''id'', Num 1)]"
  have a: "pure pureConfig" by (simp add: method_defs scenario_defs)
  have b: "strict_eq (storeState ?i) state0" by (simp add: method_defs scenario_defs)
  have s: "?i\<lparr>store := (store ?i)\<lparr>getState := state0\<rparr>\<rparr> = ?i"
    by (simp add: method_defs scenario_defs)
  from pure_identical_state_is_ignored [OF a b, of InsideBatch]
  have p: "processUpdate pureConfig (StoreNotification state0) ?i = (None, ?i)"
    unfolding s by blast
  then have q: "processUpdates pureConfig [StoreNotification state0, StoreNotification state0] ?i = ?i"
    by simp
  then have "elementsProduced pureConfig [StoreNotification state0, StoreNotification state0] ?i = 0"
    by (simp add: elementsProduced_def)
  with a b q show ?thesis by blast
qed

subsection \<open>C4: eager recomputation in the notification handler\<close>

text \<open>
  C4. A subscribed instance with \<open>pure\<close> on is notified, the store returns a state
  object other than the recorded one, and the resolved state mapping does not depend on
  the own-properties. Then the handler itself recomputes StateProps: the first thing it
  does is to invoke the resolved mapping, with the state only; called inside a batch of
  the host, it invokes nothing else. If the result is shallow-equal to the cached
  StateProps, the handler returns without asking for a host update, inside a batch or
  outside, and nothing of the instance has changed but the record of that invocation.
\<close>

theorem eager_recomputation_skips_host_update:
  assumes "pure cfg" "unsubscribe i" "\<not> strict_eq (storeState i) (getState (store i))"
    "finalMapStateToProps i = Some f" "\<not> doStatePropsDependOnOwnProps i"
  shows "calls (snd (handleChange InsideBatch cfg i)) =
           calls i @ [MapStateCall f (getState (store i)) None] \<and>
         (\<exists>rest. calls (snd (handleChange h cfg i)) =
                    calls i @ MapStateCall f (getState (store i)) None # rest) \<and>
         (\<forall>nxt old. invoke f (getState (store i)) None = Inr nxt \<and> stateProps i = Some old \<and>
             shallowEqual (own nxt) (own old) \<longrightarrow>
             handleChange h cfg i = (Inr False, i\<lparr>calls := calls i @ [MapStateCall f (getState (store i)) None]\<rparr>))"
proof -
  let ?c = "MapStateCall f (getState (store i)) None"
  have c: "computeStateProps cfg i = (invoke f (getState (store i)) None, i\<lparr>calls := calls i @ [?c]\<rparr>)"
    using computeStateProps_installed [OF assms(4), of cfg] assms(5) by simp
  have ins: "\<And>s j. setState InsideBatch cfg s j = (Inr True, j\<lparr>storeState := s\<rparr>)"
    by (simp add: setState_def)
  have pre: "\<And>h s j. calls j = calls i @ [?c] \<Longrightarrow>
               \<exists>rest. calls (snd (setState h cfg s j)) = calls i @ ?c # rest"
  proof -
    fix h s and j :: inst assume j: "calls j = calls i @ [?c]"
    from setState_calls [of h cfg s j] obtain new
      where "calls (snd (setState h cfg s j)) = calls j @ new" by blast
    with j show "\<exists>rest. calls (snd (setState h cfg s j)) = calls i @ ?c # rest" by simp
  qed
  show ?thesis
  proof (cases "invoke f (getState (store i)) None")
    case (Inl e)
    let ?j = "i\<lparr>calls := calls i @ [?c], statePropsPrecalculationError := Some e,
                 haveStatePropsBeenPrecalculated := True, hasStoreStateChanged := True\<rparr>"
    have hc: "\<And>h. handleChange h cfg i = setState h cfg (getState (store i)) ?j"
      using assms(1,2,3,5) c Inl
      by (simp add: handleChange_def tryCatch_def updateStatePropsIfNeeded_def Let_def)
    show ?thesis
      unfolding hc using pre [of ?j] Inl by (simp add: ins)
  next
    case (Inr nxt)
    show ?thesis
    proof (cases "case stateProps i of None \<Rightarrow> False | Some old \<Rightarrow> shallowEqual (own nxt) (own old)")
      case True
      have hc: "\<And>h. handleChange h cfg i = (Inr False, i\<lparr>calls := calls i @ [?c]\<rparr>)"
        using assms(1,2,3,5) c Inr True
        by (simp add: handleChange_def tryCatch_def updateStatePropsIfNeeded_def Let_def)
      show ?thesis unfolding hc by simp
    next
      case False
      let ?j = "i\<lparr>calls := calls i @ [?c], stateProps := Some nxt,
                 haveStatePropsBeenPrecalculated := True, hasStoreStateChanged := True\<rparr>"
      have hc: "\<And>h. handleChange h cfg i = setState h cfg (getState (store i)) ?j"
        using assms(1,2,3,5) c Inr False
        by (simp add: handleChange_def tryCatch_def updateStatePropsIfNeeded_def Let_def)
      have ne: "\<And>old. stateProps i = Some old \<Longrightarrow> \<not> shallowEqual (own nxt) (own old)"
        using False by auto
      show ?thesis
        unfolding hc using pre [of ?j] Inr ne by (auto simp add: ins)
    qed
  qed
qed

text \<open>
  The store moves to a new state object with the same counter: the handler invokes the
  mapping, finds \<open>{count: 0}\<close> again and asks for nothing.
\<close>

theorem eager_recomputation_skips_host_update_witness:
  "pure pureConfig \<and>
   unsubscribe ((mounted pureConfig [(''id'', Num 1)])\<lparr>store := counterStore\<lparr>getState := state0'\<rparr>\<rparr>) \<and>
   \<not> strict_eq (storeState ((mounted pureConfig [(''id'', Num 1)])\<lparr>store := counterStore\<lparr>getState := state0'\<rparr>\<rparr>))
                state0' \<and>
   handleChange OutsideBatch pureConfig
       ((mounted pureConfig [(''id'', Num 1)])\<lparr>store := counterStore\<lparr>getState := state0'\<rparr>\<rparr>)
     = (Inr False,
        (mounted pureConfig [(''id'', Num 1)])
          \<lparr>store := counterStore\<lparr>getState := state0'\<rparr>,
           calls := calls (mounted pureConfig [(''id'', Num 1)]) @ [MapStateCall countMapping state0' None]\<rparr>) \<and>
   handleChange InsideBatch pureConfig
       ((mounted pureConfig [(''id'', Num 1)])\<lparr>store := counterStore\<lparr>getState := state0'\<rparr>\<rparr>)
     = (Inr False,
        (mounted pureConfig [(''id'', Num 1)])
          \<lparr>store := counterStore\<lparr>getState := state0'\<rparr>,
           calls := calls (mounted pureConfig [(''id'', Num 1)]) @ [MapStateCall countMapping state0' None]\<rparr>)"
proof -
  let ?i = "(mounted pureConfig [(''id'', Num 1)])\<lparr>store := counterStore\<lparr>getState := state0'\<rparr>\<rparr>"
  have g: "getState (store ?i) = state0'" by simp
  have a: "pure pureConfig" by (simp add: method_defs scenario_defs)
  have b: "unsubscribe ?i" by (simp add: method_defs scenario_defs)
  have c: "\<not> strict_eq (storeState ?i) (getState (store ?i))" by (simp add: method_defs scenario_defs)
  have d: "finalMapStateToProps ?i = Some countMapping" by (simp add: method_defs scenario_defs)
  have e: "\<not> doStatePropsDependOnOwnProps ?i" by (simp add: method_defs scenario_defs)
  have f: "invoke countMapping (getState (store ?i)) None = Inr (Plain [(''count'', Num 0)])"
    by (simp add: scenario_defs)
  have h: "stateProps ?i = Some (Plain [(''count'', Num 0)])" by (simp add: method_defs scenario_defs)
  have k: "shallowEqual (own (Plain [(''count'', Num 0)])) (own (Plain [(''count'', Num 0)]))"
    by (simp add: shallowEqual_refl)
  have r: "?i\<lparr>calls := calls ?i @ [MapStateCall countMapping (getState (store ?i)) None]\<rparr> =
        (mounted pureConfig [(''id'', Num 1)])
          \<lparr>store := counterStore\<lparr>getState := state0'\<rparr>,
           calls := calls (mounted pureConfig [(''id'', Num 1)]) @ [MapStateCall countMapping state0' None]\<rparr>"
    by simp
  from eager_recomputation_skips_host_update [OF a b c d e, of OutsideBatch] f h k
  have o: "handleChange OutsideBatch pureConfig ?i =
          (Inr False, ?i\<lparr>calls := calls ?i @ [MapStateCall countMapping (getState (store ?i)) None]\<rparr>)"
    by blast
  from eager_recomputation_skips_host_update [OF a b c d e, of InsideBatch] f h k
  have n: "handleChange InsideBatch pureConfig ?i =
          (Inr False, ?i\<lparr>calls := calls ?i @ [MapStateCall countMapping (getState (store ?i)) None]\<rparr>)"
    by blast
  from a b c o n show ?thesis by simp
qed

subsection \<open>C9: an error during the eager recomputation is thrown by the next pass\<close>

text \<open>
  C9 as written fails, in two ways. It says that the error never propagates out of the
  store's listener invocation. \<open>tryCatch\<close> encloses the eager recomputation only; the
  call of \<open>setState\<close> that follows is outside it. When the listener is called outside a
  batch of the host, the host runs the render pass inside \<open>setState\<close>, the pass throws
  the recorded error, and the error leaves \<open>handleChange\<close>: in the first scenario below
  the counter reaches 1, \<open>failingMapping\<close> throws, and the listener invocation ends with
  that error. C9 also says that the captured error is thrown again by the next pass. The
  pass tests the recorded value for truthiness: in the second scenario the mapping throws
  \<open>null\<close>, the handler records it and asks for the update, and the pass throws nothing,
  returns an element and clears the record.
\<close>

theorem eager_error_leaves_listener_outside_batch:
  "fst (computeStateProps failingConfig
          ((mounted failingConfig [(''id'', Num 1)])\<lparr>store := counterStore\<lparr>getState := state1\<rparr>\<rparr>))
     = Inl (Error ''boom'') \<and>
   fst (handleChange OutsideBatch failingConfig
          ((mounted failingConfig [(''id'', Num 1)])\<lparr>store := counterStore\<lparr>getState := state1\<rparr>\<rparr>))
     = Inl (Error ''boom'') \<and>
   fst (computeStateProps nullThrowingConfig
          ((mounted nullThrowingConfig [(''id'', Num 1)])\<lparr>store := counterStore\<lparr>getState := state1\<rparr>\<rparr>))
     = Inl (Thrown Null) \<and>
   fst (handleChange InsideBatch nullThrowingConfig
          ((mounted nullThrowingConfig [(''id'', Num 1)])\<lparr>store := counterStore\<lparr>getState := state1\<rparr>\<rparr>))
     = Inr True \<and>
   statePropsPrecalculationError (snd (handleChange InsideBatch nullThrowingConfig
          ((mounted nullThrowingConfig [(''id'', Num 1)])\<lparr>store := counterStore\<lparr>getState := state1\<rparr>\<rparr>)))
     = Some (Thrown Null) \<and>
   fst (processUpdate nullThrowingConfig (StoreNotification state1)
          (mounted nullThrowingConfig [(''id'', Num 1)]))
     = Some (Inr \<lparr>elem_id = 1, elem_props = [(''id'', Num 1), (''count'', Num 0), (''dispatch'', Ref 0)]\<rparr>) \<and>
   statePropsPrecalculationError (snd (processUpdate nullThrowingConfig (StoreNotification state1)
          (mounted nullThrowingConfig [(''id'', Num 1)])))
     = None"
  by (simp add: method_defs scenario_defs)

text \<open>
  C9, as amended. The eager recomputation of StateProps in the notification handler
  throws a value. The throw is captured: called inside a batch of the host, the handler
  returns normally, having recorded the thrown value, marked the store state as changed
  and asked for a host update; nothing else of the instance has changed. If the recorded
  value is truthy, as every Error object is, the host update runs a render pass and the
  pass throws that value before it invokes anything, leaving the instance with the four
  flags reset: \<open>haveOwnPropsChanged\<close>, \<open>hasStoreStateChanged\<close> and
  \<open>haveStatePropsBeenPrecalculated\<close> are false and \<open>statePropsPrecalculationError\<close> is
  \<open>null\<close>. Called outside a batch, the handler ends with that same throw and that same
  instance, the pass having run inside \<open>setState\<close>.
\<close>

theorem eager_error_is_rethrown_by_next_pass:
  assumes "pure cfg" "unsubscribe i" "\<not> strict_eq (storeState i) (getState (store i))"
    "\<not> doStatePropsDependOnOwnProps i" "computeStateProps cfg i = (Inl e, i1)"
  shows "handleChange InsideBatch cfg i =
           (Inr True, i1\<lparr>storeState := getState (store i), hasStoreStateChanged := True,
                         haveStatePropsBeenPrecalculated := True,
                         statePropsPrecalculationError := Some e\<rparr>) \<and>
         (truthy_exn e \<longrightarrow>
            render cfg (i1\<lparr>storeState := getState (store i), hasStoreStateChanged := True,
                            haveStatePropsBeenPrecalculated := True,
                            statePropsPrecalculationError := Some e\<rparr>) =
              (Inl e, i1\<lparr>storeState := getState (store i), haveOwnPropsChanged := False,
                          hasStoreStateChanged := False, haveStatePropsBeenPrecalculated := False,
                          statePropsPrecalculationError := None\<rparr>) \<and>
            updateComponent cfg (i1\<lparr>storeState := getState (store i), hasStoreStateChanged := True,
                            haveStatePropsBeenPrecalculated := True,
                            statePropsPrecalculationError := Some e\<rparr>) =
              (Some (Inl e), i1\<lparr>storeState := getState (store i), haveOwnPropsChanged := False,
                          hasStoreStateChanged := False, haveStatePropsBeenPrecalculated := False,
                          statePropsPrecalculationError := None\<rparr>) \<and>
            handleChange OutsideBatch cfg i =
              (Inl e, i1\<lparr>storeState := getState (store i), haveOwnPropsChanged := False,
                          hasStoreStateChanged := False, haveStatePropsBeenPrecalculated := False,
                          statePropsPrecalculationError := None\<rparr>))"
proof (intro conjI impI)
  show "handleChange InsideBatch cfg i =
           (Inr True, i1\<lparr>storeState := getState (store i), hasStoreStateChanged := True,
                         haveStatePropsBeenPrecalculated := True,
                         statePropsPrecalculationError := Some e\<rparr>)"
    by (rule handleChange_eager_throws_InsideBatch [OF assms])
next
  assume t: "truthy_exn e"
  let ?j = "i1\<lparr>storeState := getState (store i), hasStoreStateChanged := True,
                haveStatePropsBeenPrecalculated := True, statePropsPrecalculationError := Some e\<rparr>"
  have "render cfg ?j = (Inl e, resetFlags ?j)" using t by (simp add: render_rethrow)
  then show "render cfg ?j =
              (Inl e, i1\<lparr>storeState := getState (store i), haveOwnPropsChanged := False,
                          hasStoreStateChanged := False, haveStatePropsBeenPrecalculated := False,
                          statePropsPrecalculationError := None\<rparr>)"
    by (simp add: resetFlags_def)
next
  assume t: "truthy_exn e"
  let ?j = "i1\<lparr>storeState := getState (store i), hasStoreStateChanged := True,
                haveStatePropsBeenPrecalculated := True, statePropsPrecalculationError := Some e\<rparr>"
  have "updateComponent cfg ?j =
           (Some (Inl e), ?j\<lparr>haveOwnPropsChanged := False, hasStoreStateChanged := False,
                              haveStatePropsBeenPrecalculated := False,
                              statePropsPrecalculationError := None\<rparr>)"
    by (rule updateComponent_rethrows) (simp_all add: assms(1) t)
  then show "updateComponent cfg ?j =
              (Some (Inl e), i1\<lparr>storeState := getState (store i), haveOwnPropsChanged := False,
                          hasStoreStateChanged := False, haveStatePropsBeenPrecalculated := False,
                          statePropsPrecalculationError := None\<rparr>)"
    by simp
next
  assume t: "truthy_exn e"
  show "handleChange OutsideBatch cfg i =
              (Inl e, i1\<lparr>storeState := getState (store i), haveOwnPropsChanged := False,
                          hasStoreStateChanged := False, haveStatePropsBeenPrecalculated := False,
                          statePropsPrecalculationError := None\<rparr>)"
    by (rule handleChange_eager_throws_OutsideBatch [OF assms t])
qed

text \<open>
  Scenario: the counter reaches 1, where \<open>failingMapping\<close> throws an Error object.
  Inside a batch the handler returns and the update that follows throws; the instance is
  then the notified one with the state recorded, one more invocation of the mapping and
  nothing pending.
\<close>

theorem eager_error_is_rethrown_by_next_pass_witness:
  "pure failingConfig \<and>
   unsubscribe ((mounted failingConfig [(''id'', Num 1)])\<lparr>store := counterStore\<lparr>getState := state1\<rparr>\<rparr>) \<and>
   computeStateProps failingConfig
          ((mounted failingConfig [(''id'', Num 1)])\<lparr>store := counterStore\<lparr>getState := state1\<rparr>\<rparr>)
     = (Inl (Error ''boom''),
        (mounted failingConfig [(''id'', Num 1)])
          \<lparr>store := counterStore\<lparr>getState := state1\<rparr>,
           calls := calls (mounted failingConfig [(''id'', Num 1)]) @ [MapStateCall failingMapping state1 None]\<rparr>) \<and>
   truthy_exn (Error ''boom'') \<and>
   fst (handleChange InsideBatch failingConfig
          ((mounted failingConfig [(''id'', Num 1)])\<lparr>store := counterStore\<lparr>getState := state1\<rparr>\<rparr>))
     = Inr True \<and>
   processUpdate failingConfig (StoreNotification state1) (mounted failingConfig [(''id'', Num 1)])
     = (Some (Inl (Error ''boom'')),
        (mounted failingConfig [(''id'', Num 1)])
          \<lparr>store := counterStore\<lparr>getState := state1\<rparr>, storeState := state1,
           calls := calls (mounted failingConfig [(''id'', Num 1)]) @ [MapStateCall failingMapping state1 None]\<rparr>) \<and>
   handleChange OutsideBatch failingConfig
          ((mounted failingConfig [(''id'', Num 1)])\<lparr>store := counterStore\<lparr>getState := state1\<rparr>\<rparr>)
     = (Inl (Error ''boom''),
        (mounted failingConfig [(''id'', Num 1)])
          \<lparr>store := counterStore\<lparr>getState := state1\<rparr>, storeState := state1,
           calls := calls (mounted failingConfig [(''id'', Num 1)]) @ [MapStateCall failingMapping state1 None]\<rparr>)"
proof -
  let ?m = "mounted failingConfig [(''id'', Num 1)]"
  let ?i = "?m\<lparr>store := counterStore\<lparr>getState := state1\<rparr>\<rparr>"
  let ?i1 = "?m\<lparr>store := counterStore\<lparr>getState := state1\<rparr>,
                calls := calls ?m @ [MapStateCall failingMapping state1 None]\<rparr>"
  let ?end = "?m\<lparr>store := counterStore\<lparr>getState := state1\<rparr>, storeState := state1,
                calls := calls ?m @ [MapStateCall failingMapping state1 None]\<rparr>"
  have a: "pure failingConfig" by (simp add: method_defs scenario_defs)
  have b: "unsubscribe ?i" by (simp add: method_defs scenario_defs)
  have c: "\<not> strict_eq (storeState ?i) (getState (store ?i))" by (simp add: method_defs scenario_defs)
  have d: "\<not> doStatePropsDependOnOwnProps ?i" by (simp add: method_defs scenario_defs)
  have e: "computeStateProps failingConfig ?i = (Inl (Error ''boom''), ?i1)"
    by (simp add: method_defs scenario_defs)
  have t: "truthy_exn (Error ''boom'')" by simp
  have s: "?m\<lparr>store := (store ?m)\<lparr>getState := state1\<rparr>\<rparr> = ?i"
    by (simp add: method_defs scenario_defs)
  have fl: "?i1\<lparr>storeState := getState (store ?i), haveOwnPropsChanged := False,
                hasStoreStateChanged := False, haveStatePropsBeenPrecalculated := False,
                statePropsPrecalculationError := None\<rparr> = ?end"
    by (simp add: method_defs scenario_defs)
  note th = eager_error_is_rethrown_by_next_pass [OF a b c d e]
  from th have h: "handleChange InsideBatch failingConfig ?i =
           (Inr True, ?i1\<lparr>storeState := getState (store ?i), hasStoreStateChanged := True,
                         haveStatePropsBeenPrecalculated := True,
                         statePropsPrecalculationError := Some (Error ''boom'')\<rparr>)" by blast
  from th t have u: "updateComponent failingConfig
           (?i1\<lparr>storeState := getState (store ?i), hasStoreStateChanged := True,
                         haveStatePropsBeenPrecalculated := True,
                         statePropsPrecalculationError := Some (Error ''boom'')\<rparr>) =
            (Some (Inl (Error ''boom'')), ?end)" unfolding fl by blast
  from th t have o: "handleChange OutsideBatch failingConfig ?i = (Inl (Error ''boom''), ?end)"
    unfolding fl by blast
  have p: "processUpdate failingConfig (StoreNotification state1) ?m = (Some (Inl (Error ''boom'')), ?end)"
    unfolding processUpdate.simps s h using u by simp
  from h have h': "fst (handleChange InsideBatch failingConfig ?i) = Inr True" by simp
  from a b e t h' p o show ?thesis by blast
qed

subsection \<open>C10: an error during the eager recomputation leaves the cache\<close>



subsection \<open>C5: MergedProps is recomputed only on a change\<close>



subsection \<open>C2: updates with \<open>pure\<close> off\<close>

text \<open>
  C2 as written fails. It says that with \<open>pure\<close> off every update recomputes
  MergedProps and gives a new rendered output. \<open>updateStatePropsIfNeeded\<close> and
  \<open>updateDispatchPropsIfNeeded\<close> compare shallowly whatever \<open>pure\<close> is, and the pass
  returns the previous element when neither partial nor the own-properties changed. In
  the scenario below the store moves to a new state object with the same counter: the
  pass runs and invokes the state mapping, the merge function is not invoked, and the
  element of the mount is returned.
\<close>

theorem impure_notification_reuses_element:
  "\<not> pure impureConfig \<and>
   \<not> strict_eq (storeState (mounted impureConfig [(''id'', Num 1)])) state0' \<and>
   renderedElement (mounted impureConfig [(''id'', Num 1)]) =
     Some \<lparr>elem_id = 0, elem_props = [(''id'', Num 1), (''count'', Num 0), (''dispatch'', Ref 0)]\<rparr> \<and>
   fst (processUpdate impureConfig (StoreNotification state0') (mounted impureConfig [(''id'', Num 1)])) =
     Some (Inr \<lparr>elem_id = 0, elem_props = [(''id'', Num 1), (''count'', Num 0), (''dispatch'', Ref 0)]\<rparr>) \<and>
   stateCalls (snd (processUpdate impureConfig (StoreNotification state0') (mounted impureConfig [(''id'', Num 1)])))
     = Suc (stateCalls (mounted impureConfig [(''id'', Num 1)])) \<and>
   mergeCalls (snd (processUpdate impureConfig (StoreNotification state0') (mounted impureConfig [(''id'', Num 1)])))
     = mergeCalls (mounted impureConfig [(''id'', Num 1)]) \<and>
   elementsProduced impureConfig [StoreNotification state0'] (mounted impureConfig [(''id'', Num 1)]) = 0"
  by (simp add: method_defs scenario_defs stateCalls_def mergeCalls_def elementsProduced_def)

text \<open>
  C2, as amended. Take a configuration built by \<open>connect\<close> with \<open>pure\<close> off and an
  instance with no eager recomputation pending (as is every instance of such a
  configuration once mounted, and again after each update). Every own-properties update, and every store notification received while
  subscribed, runs a render pass; a pass that returns has invoked the state mapping and
  the dispatch mapping. An own-properties update then also invokes the merge function
  and gives a new element. A store notification invokes the merge function and gives a
  new element when the pass replaced StateProps or DispatchProps (the recomputed partial
  was shallow-unequal to the cached one) or own-properties changes were pending; when
  not, the merge function is not invoked and the previous element is returned.
\<close>

theorem impure_update_recomputes_partials:
  assumes "cfg = connect w ms md mp opts" "\<not> pure cfg" "noPrecalculation i"
  shows "(\<exists>r i'. processUpdate cfg (OwnPropsUpdate np) i = (Some r, i') \<and> noPrecalculation i' \<and>
            (\<forall>e. r = Inr e \<longrightarrow>
               stateCalls i < stateCalls i' \<and> dispatchCalls i < dispatchCalls i' \<and>
               mergeCalls i' = Suc (mergeCalls i) \<and> elem_id e = next_elem i \<and>
               renderedElement i' = Some e \<and> next_elem i' = Suc (next_elem i))) \<and>
         (unsubscribe i \<longrightarrow>
           (\<exists>r i'. processUpdate cfg (StoreNotification s) i = (Some r, i') \<and> noPrecalculation i' \<and>
            (\<forall>e. r = Inr e \<longrightarrow>
               stateCalls i < stateCalls i' \<and> dispatchCalls i < dispatchCalls i' \<and>
               (changedInPass i i' \<longrightarrow>
                  mergeCalls i' = Suc (mergeCalls i) \<and> elem_id e = next_elem i \<and>
                  renderedElement i' = Some e \<and> next_elem i' = Suc (next_elem i)) \<and>
               (\<not> changedInPass i i' \<longrightarrow>
                  mergeCalls i' = mergeCalls i \<and>
                  (\<forall>e0. renderedElement i = Some e0 \<longrightarrow>
                     e = e0 \<and> renderedElement i' = Some e0 \<and> next_elem i' = next_elem i)))))"
proof -
  have ce: "\<not> checkMergedEquals cfg" using assms(1,2) connect_impure by simp
  show ?thesis
  proof (intro conjI impI)
    define j where "j = (componentWillReceiveProps cfg np i)\<lparr>props := np\<rparr>"
    have j: "haveOwnPropsChanged j" "noPrecalculation j" "stateCalls j = stateCalls i"
      "dispatchCalls j = dispatchCalls i" "mergeCalls j = mergeCalls i" "next_elem j = next_elem i"
      using assms(2,3)
      by (simp_all add: j_def componentWillReceiveProps_def noPrecalculation_def
          stateCalls_def dispatchCalls_def mergeCalls_def)
    obtain r i' where r: "render cfg j = (r, i')" by (cases "render cfg j")
    have p: "processUpdate cfg (OwnPropsUpdate np) i = (Some r, i')"
      using r assms(2) by (simp add: j_def [symmetric] updateComponent_def shouldComponentUpdate_def)
    have "\<forall>e. r = Inr e \<longrightarrow>
               stateCalls i < stateCalls i' \<and> dispatchCalls i < dispatchCalls i' \<and>
               mergeCalls i' = Suc (mergeCalls i) \<and> elem_id e = next_elem i \<and>
               renderedElement i' = Some e \<and> next_elem i' = Suc (next_elem i)"
    proof (intro allI impI)
      fix e assume "r = Inr e"
      with r have "render cfg j = (Inr e, i')" by simp
      from render_impure [OF this assms(2) ce j(2)] j(1)
      show "stateCalls i < stateCalls i' \<and> dispatchCalls i < dispatchCalls i' \<and>
               mergeCalls i' = Suc (mergeCalls i) \<and> elem_id e = next_elem i \<and>
               renderedElement i' = Some e \<and> next_elem i' = Suc (next_elem i)"
        using j(3-6) by (simp add: changedInPass_def)
    qed
    with p render_noPrecalculation [OF r]
    show "\<exists>r i'. processUpdate cfg (OwnPropsUpdate np) i = (Some r, i') \<and> noPrecalculation i' \<and>
            (\<forall>e. r = Inr e \<longrightarrow>
               stateCalls i < stateCalls i' \<and> dispatchCalls i < dispatchCalls i' \<and>
               mergeCalls i' = Suc (mergeCalls i) \<and> elem_id e = next_elem i \<and>
               renderedElement i' = Some e \<and> next_elem i' = Suc (next_elem i))"
      by blast
  next
    assume sub: "unsubscribe i"
    define j where "j = i\<lparr>store := (store i)\<lparr>getState := s\<rparr>, storeState := s, hasStoreStateChanged := True\<rparr>"
    have h: "handleChange InsideBatch cfg (i\<lparr>store := (store i)\<lparr>getState := s\<rparr>\<rparr>) = (Inr True, j)"
      using sub assms(2) by (simp add: handleChange_def setState_def j_def Let_def)
    have j: "haveOwnPropsChanged j = haveOwnPropsChanged i" "noPrecalculation j" "stateCalls j = stateCalls i"
      "dispatchCalls j = dispatchCalls i" "mergeCalls j = mergeCalls i" "next_elem j = next_elem i"
      "stateProps j = stateProps i" "dispatchProps j = dispatchProps i"
      "renderedElement j = renderedElement i"
      "haveStatePropsBeenPrecalculated j = haveStatePropsBeenPrecalculated i"
      using assms(3)
      by (simp_all add: j_def noPrecalculation_def stateCalls_def dispatchCalls_def mergeCalls_def)
    obtain r i' where r: "render cfg j = (r, i')" by (cases "render cfg j")
    have p: "processUpdate cfg (StoreNotification s) i = (Some r, i')"
      using r h assms(2) by (simp add: updateComponent_def shouldComponentUpdate_def)
    have c: "changedInPass j i' = changedInPass i i'" using j by (simp add: changedInPass_def)
    have "\<forall>e. r = Inr e \<longrightarrow>
               stateCalls i < stateCalls i' \<and> dispatchCalls i < dispatchCalls i' \<and>
               (changedInPass i i' \<longrightarrow>
                  mergeCalls i' = Suc (mergeCalls i) \<and> elem_id e = next_elem i \<and>
                  renderedElement i' = Some e \<and> next_elem i' = Suc (next_elem i)) \<and>
               (\<not> changedInPass i i' \<longrightarrow>
                  mergeCalls i' = mergeCalls i \<and>
                  (\<forall>e0. renderedElement i = Some e0 \<longrightarrow>
                     e = e0 \<and> renderedElement i' = Some e0 \<and> next_elem i' = next_elem i))"
    proof (intro allI impI)
      fix e assume "r = Inr e"
      with r have "render cfg j = (Inr e, i')" by simp
      from render_impure [OF this assms(2) ce j(2)]
      show "stateCalls i < stateCalls i' \<and> dispatchCalls i < dispatchCalls i' \<and>
               (changedInPass i i' \<longrightarrow>
                  mergeCalls i' = Suc (mergeCalls i) \<and> elem_id e = next_elem i \<and>
                  renderedElement i' = Some e \<and> next_elem i' = Suc (next_elem i)) \<and>
               (\<not> changedInPass i i' \<longrightarrow>
                  mergeCalls i' = mergeCalls i \<and>
                  (\<forall>e0. renderedElement i = Some e0 \<longrightarrow>
                     e = e0 \<and> renderedElement i' = Some e0 \<and> next_elem i' = next_elem i))"
        unfolding c j(3-6) j(9) by simp
    qed
    with p render_noPrecalculation [OF r]
    show "\<exists>r i'. processUpdate cfg (StoreNotification s) i = (Some r, i') \<and> noPrecalculation i' \<and>
            (\<forall>e. r = Inr e \<longrightarrow>
               stateCalls i < stateCalls i' \<and> dispatchCalls i < dispatchCalls i' \<and>
               (changedInPass i i' \<longrightarrow>
                  mergeCalls i' = Suc (mergeCalls i) \<and> elem_id e = next_elem i \<and>
                  renderedElement i' = Some e \<and> next_elem i' = Suc (next_elem i)) \<and>
               (\<not> changedInPass i i' \<longrightarrow>
                  mergeCalls i' = mergeCalls i \<and>
                  (\<forall>e0. renderedElement i = Some e0 \<longrightarrow>
                     e = e0 \<and> renderedElement i' = Some e0 \<and> next_elem i' = next_elem i)))"
      by blast
  qed
qed

theorem impure_update_recomputes_partials_witness:
  "impureConfig = connect noActionCreators (Some countMapping) NoMapDispatch None impureOptions \<and>
   \<not> pure impureConfig \<and> noPrecalculation (mounted impureConfig [(''id'', Num 1)]) \<and>
   unsubscribe (mounted impureConfig [(''id'', Num 1)]) \<and>
   fst (processUpdate impureConfig (OwnPropsUpdate [(''id'', Num 1)]) (mounted impureConfig [(''id'', Num 1)])) =
     Some (Inr \<lparr>elem_id = 1, elem_props = [(''id'', Num 1), (''count'', Num 0), (''dispatch'', Ref 0)]\<rparr>) \<and>
   fst (processUpdate impureConfig (StoreNotification state1) (mounted impureConfig [(''id'', Num 1)])) =
     Some (Inr \<lparr>elem_id = 1, elem_props = [(''id'', Num 1), (''count'', Num 1), (''dispatch'', Ref 0)]\<rparr>) \<and>
   mergeCalls (snd (processUpdate impureConfig (OwnPropsUpdate [(''id'', Num 1)])
                      (mounted impureConfig [(''id'', Num 1)])))
     = Suc (mergeCalls (mounted impureConfig [(''id'', Num 1)])) \<and>
   mergeCalls (snd (processUpdate impureConfig (StoreNotification state1)
                      (mounted impureConfig [(''id'', Num 1)])))
     = Suc (mergeCalls (mounted impureConfig [(''id'', Num 1)]))"
proof -
  let ?i = "mounted impureConfig [(''id'', Num 1)]"
  let ?e1 = "\<lparr>elem_id = 1, elem_props = [(''id'', Num 1), (''count'', Num 0), (''dispatch'', Ref 0)]\<rparr>"
  let ?e2 = "\<lparr>elem_id = 1, elem_props = [(''id'', Num 1), (''count'', Num 1), (''dispatch'', Ref 0)]\<rparr>"
  have a: "impureConfig = connect noActionCreators (Some countMapping) NoMapDispatch None impureOptions"
    by (simp add: impureConfig_def)
  have b: "\<not> pure impureConfig" by (simp add: method_defs scenario_defs)
  have c: "noPrecalculation ?i" by (simp add: method_defs scenario_defs noPrecalculation_def)
  have d: "unsubscribe ?i" by (simp add: method_defs scenario_defs)
  have o: "fst (processUpdate impureConfig (OwnPropsUpdate [(''id'', Num 1)]) ?i) = Some (Inr ?e1)"
    by (simp add: method_defs scenario_defs)
  have n: "fst (processUpdate impureConfig (StoreNotification state1) ?i) = Some (Inr ?e2)"
    by (simp add: method_defs scenario_defs)
  have ch: "changedInPass ?i (snd (processUpdate impureConfig (StoreNotification state1) ?i))"
    by (simp add: method_defs scenario_defs changedInPass_def)
  note t = impure_update_recomputes_partials
    [OF a b c, of "[(''id'', Num 1)]" state1]
  from t obtain r i' where
    r: "processUpdate impureConfig (OwnPropsUpdate [(''id'', Num 1)]) ?i = (Some r, i')"
       "\<forall>e. r = Inr e \<longrightarrow> mergeCalls i' = Suc (mergeCalls ?i)" by blast
  from r o have m1: "mergeCalls (snd (processUpdate impureConfig (OwnPropsUpdate [(''id'', Num 1)]) ?i))
     = Suc (mergeCalls ?i)" by simp
  from t d obtain r2 i2 where
    r2: "processUpdate impureConfig (StoreNotification state1) ?i = (Some r2, i2)"
        "\<forall>e. r2 = Inr e \<longrightarrow> (changedInPass ?i i2 \<longrightarrow> mergeCalls i2 = Suc (mergeCalls ?i))" by blast
  from r2 n ch have m2: "mergeCalls (snd (processUpdate impureConfig (StoreNotification state1) ?i))
     = Suc (mergeCalls ?i)" by simp
  from a b c d o n m1 m2 show ?thesis by blast
qed

subsection \<open>C1: rendered elements and changes of MergedProps\<close>




end
